theory Spec2Isabelle
  imports Complex_Main
begin

section \<open>Errors and tensor elements\<close>

text \<open>
  The ways a call of \<^verbatim>\<open>model.py\<close> stops without a result. \<open>SysExit\<close> carries the
  filenames printed by \<^verbatim>\<open>_get_target\<close> before \<^verbatim>\<open>sys.exit(1)\<close> (empty for
  the exits of \<^verbatim>\<open>prepare_mean_std\<close>).
\<close>

datatype error =
    SysExit "string list"
  | ZeroDivisionError
  | IndexError
  | RuntimeError

text \<open>
  Tensor elements are exact reals extended by one non-finite value: \<open>None\<close> stands for
  the IEEE results \<^verbatim>\<open>inf\<close> and \<^verbatim>\<open>nan\<close>. Dividing by zero raises nothing on a
  tensor; it yields a non-finite element, and every later \<open>+\<close>, \<open>-\<close>, \<open>*\<close>, \<open>/\<close> with
  a finite parameter keeps it non-finite.
\<close>

type_synonym fval = "real option"

definition fsub :: "fval \<Rightarrow> real \<Rightarrow> fval" where
  "fsub a b = map_option (\<lambda>x. x - b) a"

definition fadd :: "fval \<Rightarrow> real \<Rightarrow> fval" where
  "fadd a b = map_option (\<lambda>x. x + b) a"

definition fmul :: "fval \<Rightarrow> real \<Rightarrow> fval" where
  "fmul a b = map_option (\<lambda>x. x * b) a"

definition fdiv :: "fval \<Rightarrow> real \<Rightarrow> fval" where
  "fdiv a b = (case a of None \<Rightarrow> None
               | Some x \<Rightarrow> if b = 0 then None else Some (x / b))"

text \<open>
  An elementwise operation between a tensor and a parameter vector, along the last
  axis (the leading axes are mapped over): equal sizes pair up, a size of 1 on either
  side is broadcast, anything else is torch's size-mismatch \<^verbatim>\<open>RuntimeError\<close>.
\<close>

definition bcast_op :: "(fval \<Rightarrow> real \<Rightarrow> fval) \<Rightarrow> fval list \<Rightarrow> real list \<Rightarrow> error + fval list" where
  "bcast_op f xs ps =
     (if length xs = length ps then Inr (map2 f xs ps)
      else if length ps = 1 then Inr (map (\<lambda>x. f x (hd ps)) xs)
      else if length xs = 1 then Inr (map (f (hd xs)) ps)
      else Inl RuntimeError)"

definition bind_err :: "error + 'a \<Rightarrow> ('a \<Rightarrow> error + 'b) \<Rightarrow> error + 'b" where
  "bind_err m f = (case m of Inl e \<Rightarrow> Inl e | Inr x \<Rightarrow> f x)"

section \<open>Normalization layer\<close>

record norm_params =
  input_mean :: "real list"
  input_std :: "real list"
  output_mean :: "real list"
  output_std :: "real list"

text \<open>
  \<^verbatim>\<open>Model.prepare_mean_std\<close>: the supplied statistics are checked against the declared
  dimensions (\<^verbatim>\<open>sys.exit(1)\<close> on a mismatch); without statistics the source fills
  \<^verbatim>\<open>in_m = zeros\<close>, \<^verbatim>\<open>in_s = zeros\<close>, \<^verbatim>\<open>out_m = ones\<close>, \<^verbatim>\<open>out_s = ones\<close>.
\<close>

definition prepare_mean_std ::
  "nat \<Rightarrow> nat \<Rightarrow> (real list \<times> real list \<times> real list \<times> real list) option \<Rightarrow> error + norm_params" where
  "prepare_mean_std in_dim out_dim data_mean_std =
     (case data_mean_std of
        Some (in_m, in_s, out_m, out_s) \<Rightarrow>
          if length in_m \<noteq> in_dim \<or> length in_s \<noteq> in_dim then Inl (SysExit [])
          else if length out_m \<noteq> out_dim \<or> length out_s \<noteq> out_dim then Inl (SysExit [])
          else Inr \<lparr>input_mean = in_m, input_std = in_s, output_mean = out_m, output_std = out_s\<rparr>
      | None \<Rightarrow>
          Inr \<lparr>input_mean = replicate in_dim 0, input_std = replicate in_dim 0,
               output_mean = replicate out_dim 1, output_std = replicate out_dim 1\<rparr>)"

definition normalize_input :: "norm_params \<Rightarrow> fval list \<Rightarrow> error + fval list" where
  "normalize_input p x =
     bind_err (bcast_op fsub x (input_mean p)) (\<lambda>d. bcast_op fdiv d (input_std p))"

definition normalize_target :: "norm_params \<Rightarrow> fval list \<Rightarrow> error + fval list" where
  "normalize_target p y =
     bind_err (bcast_op fsub y (output_mean p)) (\<lambda>d. bcast_op fdiv d (output_std p))"

definition denormalize_output :: "norm_params \<Rightarrow> fval list \<Rightarrow> error + fval list" where
  "denormalize_output p y =
     bind_err (bcast_op fmul y (output_std p)) (\<lambda>d. bcast_op fadd d (output_mean p))"

section \<open>Feature framer\<close>

text \<open>
  A row of a feature map is the list of its frames along the last axis; one element
  is the column of all feature bins of that frame (the source keeps the bin axis whole:
  \<^verbatim>\<open>x_sp_amp[fileidx, :, a:b]\<close>), so the element type is left open.

  Python's slice \<^verbatim>\<open>xs[a:b]\<close>: a negative bound counts from the end, each bound is
  clamped to the length, and an empty range gives the empty slice.
\<close>

definition py_bound :: "int \<Rightarrow> nat \<Rightarrow> nat" where
  "py_bound i n = (if i < 0 then nat (max 0 (i + int n)) else min (nat i) n)"

definition py_slice :: "'a list \<Rightarrow> int \<Rightarrow> int \<Rightarrow> 'a list" where
  "py_slice xs a b = take (py_bound b (length xs) - py_bound a (length xs)) (drop (py_bound a (length xs)) xs)"

text \<open>
  Assigning a value of \<open>length v\<close> entries to a destination of \<open>n\<close> entries along
  one axis (\<^verbatim>\<open>buf[...] = v\<close>): equal sizes are copied, a single entry is broadcast,
  anything else is torch's \<^verbatim>\<open>RuntimeError\<close>.
\<close>

definition assign_bcast :: "nat \<Rightarrow> 'a list \<Rightarrow> error + 'a list" where
  "assign_bcast n v =
     (if length v = n then Inr v
      else if length v = 1 then Inr (replicate n (hd v))
      else Inl RuntimeError)"

text \<open>
  The start of the random crop: \<^verbatim>\<open>torch.floor(torch.rand([1]) * (true_frame_num - trunc_len))\<close>,
  for the ambient draw \<open>r\<close>, over exact arithmetic.
\<close>

definition crop_pos :: "real \<Rightarrow> int \<Rightarrow> int \<Rightarrow> int" where
  "crop_pos r true_frame_num trunc_len = \<lfloor>r * real_of_int (true_frame_num - trunc_len)\<rfloor>"

text \<open>
  The body of the loop over \<^verbatim>\<open>fileidx\<close> in \<^verbatim>\<open>Model._front_end\<close>, for one row \<open>xs\<close> of
  the extracted feature map. The ambient random source is the sequence \<open>draws\<close> read at
  the counter \<open>k\<close>; the crop branch consumes one draw. \<open>fs\<close> is the frame hop,
  \<open>dl\<close> the row's \<^verbatim>\<open>datalength\<close>. Python's \<^verbatim>\<open>//\<close> and \<^verbatim>\<open>/\<close> raise
  \<^verbatim>\<open>ZeroDivisionError\<close> on a zero divisor; \<^verbatim>\<open>repeat\<close> refuses a negative count.
\<close>

definition front_end_row ::
  "(nat \<Rightarrow> real) \<Rightarrow> nat \<Rightarrow> int \<Rightarrow> int \<Rightarrow> int \<Rightarrow> 'f list \<Rightarrow> error + ('f list \<times> nat)" where
  "front_end_row draws k fs trunc_len dl xs =
     (if fs = 0 then Inl ZeroDivisionError
      else
        let true_frame_num = dl div fs in
        if true_frame_num > trunc_len then
          (let pos = crop_pos (draws k) true_frame_num trunc_len;
               tmp = py_slice xs pos (trunc_len + pos)
           in bind_err (assign_bcast (nat trunc_len) tmp) (\<lambda>row. Inr (row, Suc k)))
        else if true_frame_num = 0 then Inl ZeroDivisionError
        else
          (let rep = \<lceil>real_of_int trunc_len / real_of_int true_frame_num\<rceil> in
           if rep < 0 then Inl RuntimeError
           else
             let tmp = concat (replicate (nat rep) (py_slice xs 0 true_frame_num))
             in bind_err (assign_bcast (nat trunc_len) (py_slice tmp 0 trunc_len))
                  (\<lambda>row. Inr (row, k))))"

text \<open>
  The loop of \<^verbatim>\<open>_front_end\<close> over the rows of the extracted map; \<^verbatim>\<open>datalength[fileidx]\<close>
  raises \<^verbatim>\<open>IndexError\<close> when the list of lengths is shorter than the batch.
\<close>

fun front_end_rows ::
  "(nat \<Rightarrow> real) \<Rightarrow> nat \<Rightarrow> int \<Rightarrow> int \<Rightarrow> int list \<Rightarrow> 'f list list \<Rightarrow> error + ('f list list \<times> nat)" where
  "front_end_rows draws k fs trunc_len dls [] = Inr ([], k)"
| "front_end_rows draws k fs trunc_len [] (xs # xss) = Inl IndexError"
| "front_end_rows draws k fs trunc_len (dl # dls) (xs # xss) =
     bind_err (front_end_row draws k fs trunc_len dl xs) (\<lambda>(row, k').
       bind_err (front_end_rows draws k' fs trunc_len dls xss) (\<lambda>(rows, k'').
         Inr (row # rows, k'')))"

section \<open>Target resolver\<close>

text \<open>
  \<^verbatim>\<open>Model._protocol_parse\<close>, on the array of rows that \<^verbatim>\<open>np.loadtxt\<close> read from the
  protocol file: the key is column 1, the label is 1 when the last column is
  \<^verbatim>\<open>bonafide\<close> and 0 otherwise; a later row replaces an earlier one with the same key. A
  row without a column 1 raises \<^verbatim>\<open>IndexError\<close>.
\<close>

type_synonym protocol = "string \<rightharpoonup> int"



text \<open>
  \<^verbatim>\<open>Model._get_target\<close>: the list comprehension raises \<^verbatim>\<open>KeyError\<close> at the first
  filename that is not a key; the handler prints the list of all requested filenames
  and exits.
\<close>

fun lookup_all :: "protocol \<Rightarrow> string list \<Rightarrow> int list option" where
  "lookup_all tbl [] = Some []"
| "lookup_all tbl (x # xs) =
     (case tbl x of None \<Rightarrow> None | Some v \<Rightarrow> map_option ((#) v) (lookup_all tbl xs))"

definition get_target :: "protocol \<Rightarrow> string list \<Rightarrow> error + int list" where
  "get_target tbl filenames =
     (case lookup_all tbl filenames of
        Some target \<Rightarrow> Inr target
      | None \<Rightarrow> Inl (SysExit filenames))"

section \<open>Ensemble members\<close>

text \<open>
  The per-member arrays of \<^verbatim>\<open>Model.__init__\<close>. \<open>n_modules\<close> is the common length of
  the module lists \<^verbatim>\<open>m_model\<close>, \<^verbatim>\<open>m_frontend\<close> and \<^verbatim>\<open>m_a_softmax\<close>, one entry per
  iteration of the constructor's loop over \<^verbatim>\<open>zip(v_truncate_lens, fft_n, lfcc_dim)\<close>.
\<close>

record members =
  frame_hops :: "int list"
  frame_lens :: "int list"
  fft_n :: "int list"
  lfcc_dim :: "int list"
  v_truncate_lens :: "int list"
  n_modules :: nat

fun truncate_lens :: "int list \<Rightarrow> error + int list" where
  "truncate_lens [] = Inr []"
| "truncate_lens (x # xs) =
     (if x = 0 then Inl ZeroDivisionError
      else bind_err (truncate_lens xs) (\<lambda>r. Inr ((10 * 16 * 750) div x # r)))"

definition init_members :: "int list \<Rightarrow> int list \<Rightarrow> int list \<Rightarrow> int list \<Rightarrow> error + members" where
  "init_members hops lens ffts dims =
     bind_err (truncate_lens hops) (\<lambda>tl.
       let n = min (length tl) (min (length ffts) (length dims)) in
       if length lens < n then Inl IndexError
       else Inr \<lparr>frame_hops = hops, frame_lens = lens, fft_n = ffts, lfcc_dim = dims,
                 v_truncate_lens = tl, n_modules = n\<rparr>)"

text \<open>The constants of the source: one member, hop 160, length 320, FFT 512, 20 LFCCs.\<close>

definition source_members :: "error + members" where
  "source_members = init_members [160] [320] [512] [20]"

definition v_submodels :: "members \<Rightarrow> nat" where
  "v_submodels mem = length (frame_lens mem)"

text \<open>
  The collaborators that are not part of \<^verbatim>\<open>model.py\<close>, indexed by member: the
  feature extractor (with the permute that follows it: one list of frames per batch
  row), the backbone (its first output: one embedding row per batch row, of the width
  \<^verbatim>\<open>v_emd_dim\<close> it is built with) and the angular layer (cosine and margin values, one
  per row, as \<^verbatim>\<open>v_out_class = 1\<close>). The waveform row \<open>'w\<close>, the frame \<open>'f\<close> and the
  embedding row \<open>'e\<close> are left open.
\<close>

record ('w, 'f, 'e) externals =
  m_frontend :: "nat \<Rightarrow> 'w list \<Rightarrow> 'f list list"
  m_model :: "nat \<Rightarrow> 'f list list \<Rightarrow> 'e list"
  m_a_softmax :: "nat \<Rightarrow> 'e list \<Rightarrow> bool \<Rightarrow> real list \<times> real list"

text \<open>
  \<^verbatim>\<open>Model._front_end\<close>: extract, allocate the buffer of \<open>trunc_len\<close> frames per row
  (\<^verbatim>\<open>torch.zeros\<close> refuses a negative size), read the hop, frame every row.
\<close>

definition front_end ::
  "('w, 'f, 'e) externals \<Rightarrow> members \<Rightarrow> (nat \<Rightarrow> real) \<Rightarrow> nat \<Rightarrow> 'w list \<Rightarrow> nat \<Rightarrow> int \<Rightarrow> int list
   \<Rightarrow> error + ('f list list \<times> nat)" where
  "front_end E mem draws k wav idx trunc_len datalength =
     (if n_modules mem \<le> idx then Inl IndexError
      else
        let x_sp_amp = m_frontend E idx wav in
        if trunc_len < 0 then Inl RuntimeError
        else if length (frame_hops mem) \<le> idx then Inl IndexError
        else front_end_rows draws k (frame_hops mem ! idx) trunc_len datalength x_sp_amp)"

section \<open>Ensemble embedding computer and angular scorer\<close>

text \<open>
  The slice assignment \<^verbatim>\<open>buf[s:e] = v\<close> along the row axis, for bounds that are not
  negative: the bounds are clamped to the buffer and the value is copied or broadcast.
\<close>

definition assign_slice :: "'a list \<Rightarrow> nat \<Rightarrow> nat \<Rightarrow> 'a list \<Rightarrow> error + 'a list" where
  "assign_slice buf s e v =
     (let lo = min s (length buf); hi = max lo (min e (length buf))
      in bind_err (assign_bcast (hi - lo) v) (\<lambda>v'. Inr (take lo buf @ v' @ drop hi buf)))"

text \<open>
  What the loop of \<^verbatim>\<open>_compute_embedding\<close> iterates over:
  \<^verbatim>\<open>enumerate(zip(frame_hops, frame_lens, fft_n, v_truncate_lens, m_model))\<close> stops with
  the shortest of the five; the body uses the index and the truncation length.
\<close>

definition loop_items :: "members \<Rightarrow> (nat \<times> int) list" where
  "loop_items mem =
     (let n = min (length (frame_hops mem)) (min (length (frame_lens mem)) (min (length (fft_n mem))
                (min (length (v_truncate_lens mem)) (n_modules mem))))
      in zip [0..<n] (v_truncate_lens mem))"

fun embed_loop ::
  "('w, 'f, 'e) externals \<Rightarrow> members \<Rightarrow> (nat \<Rightarrow> real) \<Rightarrow> 'w list \<Rightarrow> int list \<Rightarrow> (nat \<times> int) list
   \<Rightarrow> 'e list \<Rightarrow> nat \<Rightarrow> error + ('e list \<times> nat)" where
  "embed_loop E mem draws x datalength [] output_score k = Inr (output_score, k)"
| "embed_loop E mem draws x datalength ((idx, trunc_len) # rest) output_score k =
     bind_err (front_end E mem draws k x idx trunc_len datalength) (\<lambda>(x_sp_amp, k').
       bind_err (assign_slice output_score (idx * length x) ((idx + 1) * length x)
                   (m_model E idx x_sp_amp)) (\<lambda>output_score'.
         embed_loop E mem draws x datalength rest output_score' k'))"

text \<open>
  \<^verbatim>\<open>Model._compute_embedding\<close>; \<open>zero\<close> is one row of the zero-filled buffer
  (\<^verbatim>\<open>v_emd_dim\<close> zeros).
\<close>

definition compute_embedding ::
  "('w, 'f, 'e) externals \<Rightarrow> members \<Rightarrow> 'e \<Rightarrow> (nat \<Rightarrow> real) \<Rightarrow> nat \<Rightarrow> 'w list \<Rightarrow> int list
   \<Rightarrow> error + ('e list \<times> nat)" where
  "compute_embedding E mem zero draws k x datalength =
     embed_loop E mem draws x datalength (loop_items mem)
       (replicate (length x * v_submodels mem) zero) k"

fun score_loop ::
  "('w, 'f, 'e) externals \<Rightarrow> members \<Rightarrow> 'e list \<Rightarrow> bool \<Rightarrow> nat \<Rightarrow> nat list \<Rightarrow> real list \<Rightarrow> real list
   \<Rightarrow> error + (real list \<times> real list)" where
  "score_loop E mem feature_vec angle batch_size [] x_cos_val x_phi_val = Inr (x_cos_val, x_phi_val)"
| "score_loop E mem feature_vec angle batch_size (idx # rest) x_cos_val x_phi_val =
     (let s_idx = idx * batch_size; e_idx = idx * batch_size + batch_size in
      if n_modules mem \<le> idx then Inl IndexError
      else
        (case m_a_softmax E idx (py_slice feature_vec (int s_idx) (int e_idx)) angle of
           (tmp1, tmp2) \<Rightarrow>
             bind_err (assign_slice x_cos_val s_idx e_idx tmp1) (\<lambda>x_cos_val'.
               bind_err (assign_slice x_phi_val s_idx e_idx tmp2) (\<lambda>x_phi_val'.
                 score_loop E mem feature_vec angle batch_size rest x_cos_val' x_phi_val'))))"

text \<open>
  \<^verbatim>\<open>Model._compute_score\<close>: \<^verbatim>\<open>feature_vec.shape[0] // self.v_submodels\<close> raises
  \<^verbatim>\<open>ZeroDivisionError\<close> for an empty ensemble.
\<close>

definition compute_score ::
  "('w, 'f, 'e) externals \<Rightarrow> members \<Rightarrow> 'e list \<Rightarrow> bool \<Rightarrow> error + (real list \<times> real list)" where
  "compute_score E mem feature_vec angle =
     (if v_submodels mem = 0 then Inl ZeroDivisionError
      else
        let batch_size = length feature_vec div v_submodels mem
        in score_loop E mem feature_vec angle batch_size [0..<v_submodels mem]
             (replicate (length feature_vec) 0) (replicate (length feature_vec) 0))"

section \<open>Forward pass\<close>

text \<open>
  Modelled from the spec: \<^verbatim>\<open>nii_seq_tk.parse_filename\<close> and \<^verbatim>\<open>nii_seq_tk.parse_length\<close>
  (module \<^verbatim>\<open>core_scripts.data_io.seq_info\<close>, not part of the sources at hand) read the
  two components of an utterance's metadata, its filename and its raw length in samples.
\<close>

record utterance =
  filename :: string
  raw_length :: int

definition parse_filename :: "utterance \<Rightarrow> string" where
  "parse_filename y = filename y"

definition parse_length :: "utterance \<Rightarrow> int" where
  "parse_length y = raw_length y"

text \<open>\<^verbatim>\<open>score.mean()\<close>; the mean of an empty tensor is \<^verbatim>\<open>nan\<close>.\<close>

definition mean :: "real list \<Rightarrow> fval" where
  "mean xs = (if xs = [] then None else Some (sum_list xs / real (length xs)))"

text \<open>
  What one call of \<^verbatim>\<open>Model.forward\<close> hands back: the printed lines (filename, label,
  score), the returned value and the counter of the random source.
\<close>

datatype returned =
    TrainOut "real list \<times> real list" "int list" bool
  | NoneOut

type_synonym line = "string \<times> int \<times> fval"

definition forward ::
  "('w, 'f, 'e) externals \<Rightarrow> members \<Rightarrow> protocol \<Rightarrow> 'e \<Rightarrow> (nat \<Rightarrow> real) \<Rightarrow> nat \<Rightarrow> bool \<Rightarrow> 'w list
   \<Rightarrow> utterance list \<Rightarrow> error + (line list \<times> returned \<times> nat)" where
  "forward E mem tbl zero draws k training x fileinfo =
     (let filenames = map parse_filename fileinfo;
          datalength = map parse_length fileinfo
      in
        if training then
          bind_err (compute_embedding E mem zero draws k x datalength) (\<lambda>(feature_vec, k').
            bind_err (compute_score E mem feature_vec False) (\<lambda>a_softmax_act.
              bind_err (get_target tbl filenames) (\<lambda>target.
                Inr ([], TrainOut a_softmax_act (concat (replicate (v_submodels mem) target)) True, k'))))
        else
          bind_err (compute_embedding E mem zero draws k x datalength) (\<lambda>(feature_vec, k').
            bind_err (compute_score E mem feature_vec True) (\<lambda>(score, x_phi_val).
              bind_err (get_target tbl filenames) (\<lambda>target.
                (case (filenames, target) of
                   (f0 # fs, t0 # ts) \<Rightarrow> Inr ([(f0, t0, mean score)], NoneOut, k')
                 | _ \<Rightarrow> Inl IndexError)))))"

section \<open>Blocks of the stacked buffers\<close>

text \<open>
  What each member contributes, in the order of the loops and with the same threading
  of the random source: the embedding rows that \<^verbatim>\<open>_compute_embedding\<close> assigns for a
  member (its framed features through its backbone, as copied or broadcast into the
  \<open>length x\<close> rows of its slice), and the cosine and margin values that
  \<^verbatim>\<open>_compute_score\<close> assigns for a member. The loops above write these blocks into
  zero-filled buffers; the blocks are used in the proofs to say where they end up.
\<close>

fun member_rows ::
  "('w, 'f, 'e) externals \<Rightarrow> members \<Rightarrow> (nat \<Rightarrow> real) \<Rightarrow> 'w list \<Rightarrow> int list \<Rightarrow> (nat \<times> int) list
   \<Rightarrow> nat \<Rightarrow> error + ('e list list \<times> nat)" where
  "member_rows E mem draws x datalength [] k = Inr ([], k)"
| "member_rows E mem draws x datalength ((idx, trunc_len) # rest) k =
     bind_err (front_end E mem draws k x idx trunc_len datalength) (\<lambda>(x_sp_amp, k').
       bind_err (assign_bcast (length x) (m_model E idx x_sp_amp)) (\<lambda>features.
         bind_err (member_rows E mem draws x datalength rest k') (\<lambda>(more, k'').
           Inr (features # more, k''))))"

fun member_scores ::
  "('w, 'f, 'e) externals \<Rightarrow> members \<Rightarrow> 'e list \<Rightarrow> bool \<Rightarrow> nat \<Rightarrow> nat list
   \<Rightarrow> error + (real list list \<times> real list list)" where
  "member_scores E mem feature_vec angle batch_size [] = Inr ([], [])"
| "member_scores E mem feature_vec angle batch_size (idx # rest) =
     (if n_modules mem \<le> idx then Inl IndexError
      else
        (case m_a_softmax E idx
                (take batch_size (drop (idx * batch_size) feature_vec)) angle of
           (tmp1, tmp2) \<Rightarrow>
             bind_err (assign_bcast batch_size tmp1) (\<lambda>c.
               bind_err (assign_bcast batch_size tmp2) (\<lambda>p.
                 bind_err (member_scores E mem feature_vec angle batch_size rest) (\<lambda>(cs, ps).
                   Inr (c # cs, p # ps))))))"

section \<open>Properties of the feature framer\<close>

lemma py_slice_nonneg:
  "0 \<le> a \<Longrightarrow> 0 \<le> b \<Longrightarrow> py_slice xs a b = take (nat b - nat a) (drop (nat a) xs)"
  by (auto simp: py_slice_def py_bound_def min_def)

lemma crop_pos_bounds:
  assumes "0 \<le> r" "r < 1" "L < T"
  shows "0 \<le> crop_pos r T L" and "crop_pos r T L \<le> T - L - 1"
proof -
  let ?n = "real_of_int (T - L)"
  have n: "0 < ?n" using assms(3) by simp
  have "0 \<le> r * ?n" using assms(1) n by simp
  then show "0 \<le> crop_pos r T L" by (simp add: crop_pos_def)
  have "r * ?n < ?n" using assms(2) n by simp
  then have "\<lfloor>r * ?n\<rfloor> < T - L" by (simp add: floor_less_iff)
  then show "crop_pos r T L \<le> T - L - 1" by (simp add: crop_pos_def)
qed

lemma crop_pos_cell:
  assumes "L < T"
  shows "crop_pos r T L = off \<longleftrightarrow>
         real_of_int off / real_of_int (T - L) \<le> r \<and> r < (real_of_int off + 1) / real_of_int (T - L)"
proof -
  have n: "0 < real_of_int (T - L)" using assms by simp
  show ?thesis
    unfolding crop_pos_def floor_eq_iff using n
    by (simp add: pos_divide_le_eq pos_less_divide_eq)
qed

lemma length_concat_replicate: "length (concat (replicate n ys)) = n * length ys"
  by (induction n) auto

lemma nth_concat_replicate:
  "j < n * length ys \<Longrightarrow> concat (replicate n ys) ! j = ys ! (j mod length ys)"
proof (induction n arbitrary: j)
  case 0
  then show ?case by simp
next
  case (Suc n)
  show ?case
  proof (cases "j < length ys")
    case True
    then show ?thesis by (simp add: nth_append)
  next
    case False
    then have "j - length ys < n * length ys" using Suc.prems by simp
    from Suc.IH [OF this] False show ?thesis
      by (simp add: nth_append le_mod_geq)
  qed
qed

lemma rep_covers:
  assumes "0 < T" "0 \<le> L"
  shows "0 \<le> \<lceil>real_of_int L / real_of_int T\<rceil>"
    and "nat L \<le> nat \<lceil>real_of_int L / real_of_int T\<rceil> * nat T"
proof -
  let ?q = "real_of_int L / real_of_int T"
  have q0: "0 \<le> ?q" using assms by simp
  then show c0: "0 \<le> \<lceil>?q\<rceil>" by simp
  have T: "0 < real_of_int T" using assms(1) by simp
  have "?q \<le> real_of_int \<lceil>?q\<rceil>" by (rule le_of_int_ceiling)
  then have "real_of_int L \<le> real_of_int \<lceil>?q\<rceil> * real_of_int T"
    by (rule iffD1 [OF pos_divide_le_eq [OF T]])
  then have "L \<le> \<lceil>?q\<rceil> * T"
    by (metis of_int_le_iff of_int_mult)
  then have "nat L \<le> nat (\<lceil>?q\<rceil> * T)" by simp
  also have "\<dots> = nat \<lceil>?q\<rceil> * nat T"
    using c0 by (simp add: nat_mult_distrib)
  finally show "nat L \<le> nat \<lceil>?q\<rceil> * nat T" .
qed


lemma assign_bcast_exact: "length v = n \<Longrightarrow> assign_bcast n v = Inr v"
  by (simp add: assign_bcast_def)

lemma crop_row:
  assumes "fs \<noteq> 0" "0 \<le> L" "L < dl div fs" "dl div fs \<le> int (length xs)"
    and "0 \<le> draws k" "draws k < 1"
  shows "front_end_row draws k fs L dl xs =
           Inr (take (nat L) (drop (nat (crop_pos (draws k) (dl div fs) L)) xs), Suc k)"
    and "length (take (nat L) (drop (nat (crop_pos (draws k) (dl div fs) L)) xs)) = nat L"
proof -
  let ?T = "dl div fs"
  let ?pos = "crop_pos (draws k) ?T L"
  have p0: "0 \<le> ?pos" and p1: "?pos \<le> ?T - L - 1"
    using crop_pos_bounds [OF assms(5) assms(6) assms(3)] by auto
  have sl: "py_slice xs ?pos (L + ?pos) = take (nat L) (drop (nat ?pos) xs)"
    using p0 assms(2) by (simp add: py_slice_nonneg nat_add_distrib)
  show len: "length (take (nat L) (drop (nat ?pos) xs)) = nat L"
    using p0 p1 assms(2,4) by simp
  show "front_end_row draws k fs L dl xs = Inr (take (nat L) (drop (nat ?pos) xs), Suc k)"
    using assms(1,3) sl assign_bcast_exact [OF len]
    by (simp add: front_end_row_def Let_def bind_err_def)
qed

lemma tile_row:
  assumes "fs \<noteq> 0" "0 < dl div fs" "dl div fs \<le> L" "dl div fs \<le> int (length xs)"
  defines "row \<equiv> take (nat L) (concat (replicate (nat \<lceil>real_of_int L / real_of_int (dl div fs)\<rceil>)
                                     (take (nat (dl div fs)) xs)))"
  shows "front_end_row draws k fs L dl xs = Inr (row, k)"
    and "length row = nat L"
    and "j < nat L \<Longrightarrow> row ! j = xs ! (j mod nat (dl div fs))"
proof -
  let ?T = "dl div fs"
  let ?rep = "\<lceil>real_of_int L / real_of_int ?T\<rceil>"
  let ?ys = "take (nat ?T) xs"
  let ?tmp = "concat (replicate (nat ?rep) ?ys)"
  have L0: "0 \<le> L" using assms(2,3) by simp
  have r0: "0 \<le> ?rep" and cov: "nat L \<le> nat ?rep * nat ?T"
    using rep_covers [OF assms(2) L0] by auto
  have lys: "length ?ys = nat ?T" using assms(2,4) by simp
  have s1: "py_slice xs 0 ?T = ?ys"
    using assms(2) by (simp add: py_slice_nonneg)
  have ltmp: "length ?tmp = nat ?rep * nat ?T"
    by (simp only: length_concat_replicate lys)
  have s2: "py_slice ?tmp 0 L = row"
    using L0 by (simp add: py_slice_nonneg row_def)
  show len: "length row = nat L"
    unfolding row_def using cov ltmp by simp
  show "front_end_row draws k fs L dl xs = Inr (row, k)"
    using assms(1,2,3) r0 s1 s2 assign_bcast_exact [OF len]
    by (simp add: front_end_row_def Let_def bind_err_def)
  show "row ! j = xs ! (j mod nat ?T)" if j: "j < nat L"
  proof -
    have jt: "j < nat ?rep * length ?ys" using j cov lys by simp
    have m: "j mod nat ?T < nat ?T" using assms(2) by simp
    have "row ! j = ?tmp ! j" using j by (simp add: row_def)
    also have "\<dots> = ?ys ! (j mod length ?ys)" by (rule nth_concat_replicate [OF jt])
    also have "\<dots> = xs ! (j mod nat ?T)" using m lys by simp
    finally show ?thesis .
  qed
qed

lemma zero_frames_row:
  "fs \<noteq> 0 \<Longrightarrow> 0 \<le> L \<Longrightarrow> dl div fs = 0 \<Longrightarrow> front_end_row draws k fs L dl xs = Inl ZeroDivisionError"
  by (simp add: front_end_row_def)


lemma crop_pos_reachable:
  assumes "0 \<le> off" "off \<le> T - L - 1"
  shows "\<exists>r. 0 \<le> r \<and> r < 1 \<and> crop_pos r T L = off"
proof -
  have LT: "L < T" using assms by simp
  let ?r = "real_of_int off / real_of_int (T - L)"
  have n: "0 < real_of_int (T - L)" using LT by simp
  have "0 \<le> ?r" using assms(1) n by simp
  moreover have "?r < 1" using assms(2) n by simp
  moreover have "crop_pos ?r T L = off"
    using n by (simp add: crop_pos_cell [OF LT] divide_strict_right_mono)
  ultimately show ?thesis by blast
qed

lemma crop_row_window:
  assumes "fs \<noteq> 0" "0 \<le> L" "L < dl div fs" "dl div fs \<le> int (length xs)"
    and "0 \<le> draws k" "draws k < 1"
  shows "front_end_row draws k fs L dl xs =
           Inr (take (nat L) (drop (nat (crop_pos (draws k) (dl div fs) L)) xs), Suc k)
       \<and> length (take (nat L) (drop (nat (crop_pos (draws k) (dl div fs) L)) xs)) = nat L
       \<and> 0 \<le> crop_pos (draws k) (dl div fs) L
       \<and> crop_pos (draws k) (dl div fs) L \<le> dl div fs - L - 1
       \<and> (\<forall>off. 0 \<le> off \<and> off \<le> dl div fs - L - 1 \<longrightarrow>
             (\<exists>r. 0 \<le> r \<and> r < 1 \<and> crop_pos r (dl div fs) L = off))
       \<and> (\<forall>r off. crop_pos r (dl div fs) L = off \<longleftrightarrow>
             real_of_int off / real_of_int (dl div fs - L) \<le> r
             \<and> r < (real_of_int off + 1) / real_of_int (dl div fs - L))"
  using crop_row [of fs L dl xs draws k] assms
    crop_pos_bounds [OF assms(5) assms(6) assms(3)]
    crop_pos_reachable [of _ "dl div fs" L] crop_pos_cell [OF assms(3)]
  by blast

text \<open>
  C3 as stated fails: with 3 true frames and truncation length 2 the inclusive range
  \<open>[0, 1]\<close> of the claim contains the offset 1, but no draw in \<open>[0, 1)\<close> yields the
  window \<open>[11, 12]\<close> that starts there.
\<close>

theorem crop_max_offset_counterexample:
  "\<not> (\<exists>r. 0 \<le> r \<and> r < 1 \<and>
         front_end_row (\<lambda>_. r) 0 1 2 3 [10, 11, 12 :: nat] = Inr ([11, 12], Suc 0))"
proof
  assume "\<exists>r. 0 \<le> r \<and> r < 1 \<and>
         front_end_row (\<lambda>_. r) 0 1 2 3 [10, 11, 12 :: nat] = Inr ([11, 12], Suc 0)"
  then obtain r where r: "0 \<le> r" "r < 1"
    and f: "front_end_row (\<lambda>_. r) 0 1 2 3 [10, 11, 12 :: nat] = Inr ([11, 12], Suc 0)"
    by blast
  have "0 \<le> crop_pos r 3 2" and "crop_pos r 3 2 \<le> 3 - 2 - 1"
    using crop_pos_bounds [OF r, of 2 3] by auto
  then have p: "crop_pos r 3 2 = 0" by simp
  have "front_end_row (\<lambda>_. r) 0 1 2 3 [10, 11, 12 :: nat] = Inr ([10, 11], Suc 0)"
    using crop_row(1) [of 1 2 3 "[10, 11, 12 :: nat]" "\<lambda>_. r" 0] r p by simp
  with f show False by simp
qed

lemma set_window_upt:
  assumes "x \<in> set (take n (drop p [0..<F]))"
  shows "x < p + n"
proof -
  from assms obtain i where i: "i < length (take n (drop p [0..<F]))"
    and x: "x = take n (drop p [0..<F]) ! i"
    by (auto simp: in_set_conv_nth)
  from i have "i < n" and "p + i < F" by auto
  with x show ?thesis by simp
qed

text \<open>
  C10: for every draw \<open>r\<close> in \<open>[0, 1)\<close> and true frame count \<open>T > L\<close>, the start
  \<open>crop_pos r T L\<close> is at most \<open>T - L - 1\<close>, so the offset \<open>T - L\<close> is never
  selected; and on a feature map of \<open>F \<ge> T\<close> frames, labelled by their indices
  \<open>0, \<dots>, F - 1\<close>, neither the last extracted frame \<open>F - 1\<close> nor the last true
  frame \<open>T - 1\<close> occurs in the cropped window.
\<close>

theorem crop_excludes_last:
  assumes "0 \<le> r" "r < 1" "L < T"
  shows "crop_pos r T L \<le> T - L - 1
       \<and> crop_pos r T L \<noteq> T - L
       \<and> (fs \<noteq> 0 \<and> dl div fs = T \<and> 0 \<le> L \<and> T \<le> int F \<longrightarrow>
            (\<exists>row. front_end_row (\<lambda>_. r) k fs L dl [0..<F] = Inr (row, Suc k)
                   \<and> F - 1 \<notin> set row \<and> nat T - 1 \<notin> set row))"
proof -
  have p0: "0 \<le> crop_pos r T L" and p1: "crop_pos r T L \<le> T - L - 1"
    using crop_pos_bounds [OF assms] by auto
  have win: "\<exists>row. front_end_row (\<lambda>_. r) k fs L dl [0..<F] = Inr (row, Suc k)
                   \<and> F - 1 \<notin> set row \<and> nat T - 1 \<notin> set row"
    if h: "fs \<noteq> 0" "dl div fs = T" "0 \<le> L" "T \<le> int F"
  proof -
    let ?row = "take (nat L) (drop (nat (crop_pos r T L)) [0..<F])"
    have f: "front_end_row (\<lambda>_. r) k fs L dl [0..<F] = Inr (?row, Suc k)"
      using crop_row(1) [of fs L dl "[0..<F]" "\<lambda>_. r" k] h assms by simp
    have b: "x < nat T - 1" if "x \<in> set ?row" for x
      using set_window_upt [OF that] p0 p1 h(3) by linarith
    have le: "nat T - 1 \<le> F - 1" using h(4) by linarith
    have "F - 1 \<notin> set ?row"
    proof
      assume "F - 1 \<in> set ?row"
      from b [OF this] le show False by simp
    qed
    moreover have "nat T - 1 \<notin> set ?row"
    proof
      assume "nat T - 1 \<in> set ?row"
      from b [OF this] show False by simp
    qed
    ultimately show ?thesis using f by blast
  qed
  from p1 win show ?thesis by auto
qed

theorem crop_excludes_last_witness:
  "crop_pos (3 / 4) 4 2 = 1
   \<and> (\<exists>row. front_end_row (\<lambda>_. 3 / 4) 0 1 2 4 [0..<5] = Inr (row, Suc 0) \<and> 4 \<notin> set row \<and> 3 \<notin> set row)"
proof -
  have c: "crop_pos (3 / 4) 4 2 = 1" by (simp add: crop_pos_def)
  have "\<exists>row. front_end_row (\<lambda>_. 3 / 4) 0 1 2 4 [0..<5] = Inr (row, Suc 0)
               \<and> 5 - 1 \<notin> set row \<and> nat 4 - 1 \<notin> set row"
    using crop_excludes_last [of "3 / 4" 2 4 1 4 5 0] by simp
  with c show ?thesis by simp
qed

lemma tile_row_periodic:
  assumes "fs \<noteq> 0" "0 < dl div fs" "dl div fs \<le> L" "dl div fs \<le> int (length xs)"
  shows "\<exists>row. front_end_row draws k fs L dl xs = Inr (row, k)
             \<and> length row = nat L
             \<and> take (nat (dl div fs)) row = take (nat (dl div fs)) xs
             \<and> (\<forall>j. j < nat L \<longrightarrow> row ! j = xs ! (j mod nat (dl div fs)))"
proof -
  let ?T = "nat (dl div fs)"
  define row where "row = take (nat L) (concat (replicate (nat \<lceil>real_of_int L / real_of_int (dl div fs)\<rceil>)
                                     (take (nat (dl div fs)) xs)))"
  have f: "front_end_row draws k fs L dl xs = Inr (row, k)"
    and len: "length row = nat L"
    and per: "\<And>j. j < nat L \<Longrightarrow> row ! j = xs ! (j mod ?T)"
    unfolding row_def using tile_row [OF assms] by auto
  have "take ?T row = take ?T xs"
  proof (rule nth_equalityI)
    show "length (take ?T row) = length (take ?T xs)"
      using len assms by simp
    fix i assume "i < length (take ?T row)"
    then have i: "i < ?T" "i < nat L" using len assms by auto
    then show "take ?T row ! i = take ?T xs ! i"
      using per [of i] by simp
  qed
  with f len per show ?thesis by blast
qed

lemma front_end_rows_nonzero:
  assumes "fs \<noteq> 0" "0 \<le> L"
  shows "front_end_rows draws k fs L dls xss = Inr res \<Longrightarrow> i < length xss \<Longrightarrow> dls ! i div fs \<noteq> 0"
proof (induction xss arbitrary: dls k res i)
  case Nil
  then show ?case by simp
next
  case (Cons xs xss)
  from Cons.prems(1) obtain dl dls' where dls: "dls = dl # dls'"
    by (cases dls) auto
  from Cons.prems(1) obtain row k1 where r: "front_end_row draws k fs L dl xs = Inr (row, k1)"
    by (auto simp: dls bind_err_def split: sum.splits)
  with Cons.prems(1) obtain res' where rs: "front_end_rows draws k1 fs L dls' xss = Inr res'"
    by (auto simp: dls bind_err_def split: sum.splits)
  show ?case
  proof (cases i)
    case 0
    have "dl div fs \<noteq> 0"
    proof
      assume "dl div fs = 0"
      from zero_frames_row [OF assms this, of draws k xs] r show False by simp
    qed
    with 0 dls show ?thesis by simp
  next
    case (Suc j)
    with Cons.prems(2) have "j < length xss" by simp
    from Cons.IH [OF rs this] Suc dls show ?thesis by simp
  qed
qed

lemma front_end_row_total:
  assumes "fs \<noteq> 0" "0 \<le> L" "1 \<le> dl div fs" "dl div fs \<le> int (length xs)"
    and "0 \<le> draws k" "draws k < 1"
  shows "\<exists>row k'. front_end_row draws k fs L dl xs = Inr (row, k') \<and> length row = nat L"
proof (cases "L < dl div fs")
  case True
  from crop_row [of fs L dl xs draws k] assms True show ?thesis by blast
next
  case False
  then have le: "dl div fs \<le> L" by simp
  have pos: "0 < dl div fs" using assms(3) by simp
  from tile_row(1,2) [OF assms(1) pos le assms(4)] show ?thesis by blast
qed

lemma front_end_rows_total:
  assumes "fs \<noteq> 0" "0 \<le> L" "\<And>n. 0 \<le> draws n \<and> draws n < 1"
  shows "length xss \<le> length dls \<Longrightarrow>
         (\<And>i. i < length xss \<Longrightarrow> 1 \<le> dls ! i div fs \<and> dls ! i div fs \<le> int (length (xss ! i))) \<Longrightarrow>
         \<exists>rows k'. front_end_rows draws k fs L dls xss = Inr (rows, k') \<and> length rows = length xss
                    \<and> (\<forall>row \<in> set rows. length row = nat L)"
proof (induction xss arbitrary: dls k)
  case Nil
  then show ?case by simp
next
  case (Cons xs xss)
  from Cons.prems(1) obtain dl dls' where dls: "dls = dl # dls'"
    by (cases dls) auto
  have h0: "1 \<le> dl div fs \<and> dl div fs \<le> int (length xs)"
    using Cons.prems(2) [of 0] dls by simp
  from front_end_row_total [of fs L dl xs draws k] assms h0
  obtain row k1 where r: "front_end_row draws k fs L dl xs = Inr (row, k1)" and lr: "length row = nat L"
    by blast
  have hs: "\<And>i. i < length xss \<Longrightarrow> 1 \<le> dls' ! i div fs \<and> dls' ! i div fs \<le> int (length (xss ! i))"
    using Cons.prems(2) [of "Suc _"] dls by simp
  have "length xss \<le> length dls'" using Cons.prems(1) dls by simp
  from Cons.IH [OF this hs, of k1]
  obtain rows k2 where rs: "front_end_rows draws k1 fs L dls' xss = Inr (rows, k2)"
    and l: "length rows = length xss" and a: "\<forall>row \<in> set rows. length row = nat L"
    by blast
  have "front_end_rows draws k fs L dls (xs # xss) = Inr (row # rows, k2)"
    using r rs by (simp add: dls bind_err_def)
  with l a lr show ?case by simp
qed

text \<open>
  C8: for a hop \<open>fs \<noteq> 0\<close> and a truncation length \<open>L \<ge> 0\<close>, a row whose true frame
  count \<open>dl div fs\<close> is 0 reaches the division of the tiling branch and fails with
  \<open>ZeroDivisionError\<close>, no guard coming first; hence a batch that is framed
  successfully has no row with a zero true frame count, and when every row has a true
  frame count of at least 1 (covered by its extracted frames, draws in \<open>[0, 1)\<close>) the
  framing of the batch returns.
\<close>

theorem zero_frames_fault:
  assumes "fs \<noteq> 0" "0 \<le> L"
  shows "(dl div fs = 0 \<longrightarrow> front_end_row draws k fs L dl xs = Inl ZeroDivisionError)
       \<and> (\<forall>res. front_end_rows draws k fs L dls xss = Inr res \<longrightarrow>
             (\<forall>i. i < length xss \<longrightarrow> dls ! i div fs \<noteq> 0))
       \<and> (length xss \<le> length dls
            \<and> (\<forall>i. i < length xss \<longrightarrow> 1 \<le> dls ! i div fs \<and> dls ! i div fs \<le> int (length (xss ! i)))
            \<and> (\<forall>n. 0 \<le> draws n \<and> draws n < 1)
          \<longrightarrow> (\<exists>res. front_end_rows draws k fs L dls xss = Inr res))"
proof (intro conjI impI allI)
  assume z: "dl div fs = 0"
  show "front_end_row draws k fs L dl xs = Inl ZeroDivisionError"
    by (rule zero_frames_row [OF assms z])
next
  fix res i
  assume "front_end_rows draws k fs L dls xss = Inr res" "i < length xss"
  from front_end_rows_nonzero [OF assms this] show "dls ! i div fs \<noteq> 0" .
next
  assume h: "length xss \<le> length dls
            \<and> (\<forall>i. i < length xss \<longrightarrow> 1 \<le> dls ! i div fs \<and> dls ! i div fs \<le> int (length (xss ! i)))
            \<and> (\<forall>n. 0 \<le> draws n \<and> draws n < 1)"
  then have "\<exists>rows k'. front_end_rows draws k fs L dls xss = Inr (rows, k') \<and> length rows = length xss
                    \<and> (\<forall>row \<in> set rows. length row = nat L)"
    using front_end_rows_total [OF assms, of draws xss dls k] by blast
  then show "\<exists>res. front_end_rows draws k fs L dls xss = Inr res" by blast
qed

theorem zero_frames_fault_witness:
  "front_end_row (\<lambda>_. 0) 0 160 750 0 [[1 :: real]] = Inl ZeroDivisionError
   \<and> front_end_rows (\<lambda>_. 0) 0 160 750 [0] [[[1 :: real]]] = Inl ZeroDivisionError"
proof -
  have a: "front_end_row (\<lambda>_. 0) 0 160 750 0 [[1 :: real]] = Inl ZeroDivisionError"
    using zero_frames_fault [of 160 750 0 "\<lambda>_. 0" 0 "[[1 :: real]]" "[]" "[]"] by simp
  then show ?thesis by (simp add: bind_err_def)
qed

lemma front_end_row_counter:
  assumes "front_end_row draws k fs L dl xs = Inr (row, k1)"
  shows "k1 = k + (if L < dl div fs then 1 else 0)"
proof (cases "L < dl div fs")
  case True
  with assms show ?thesis
    by (auto simp: front_end_row_def Let_def bind_err_def split: if_splits sum.splits)
next
  case False
  with assms show ?thesis
    by (auto simp: front_end_row_def Let_def bind_err_def split: if_splits sum.splits)
qed

lemma front_end_rows_nth:
  "front_end_rows draws k fs L dls xss = Inr (rows, k') \<Longrightarrow> b < length xss \<Longrightarrow>
   \<exists>kb'. front_end_row draws (k + length (filter (\<lambda>dl. L < dl div fs) (take b dls))) fs L
            (dls ! b) (xss ! b) = Inr (rows ! b, kb')"
proof (induction xss arbitrary: dls k rows b)
  case Nil
  then show ?case by simp
next
  case (Cons xs xss)
  from Cons.prems(1) obtain dl dls' where dls: "dls = dl # dls'"
    by (cases dls) auto
  from Cons.prems(1) obtain row k1 where r: "front_end_row draws k fs L dl xs = Inr (row, k1)"
    by (auto simp: dls bind_err_def split: sum.splits)
  with Cons.prems(1) obtain rows' where rs: "front_end_rows draws k1 fs L dls' xss = Inr (rows', k')"
    and rows: "rows = row # rows'"
    by (auto simp: dls bind_err_def split: sum.splits)
  have k1: "k1 = k + (if L < dl div fs then 1 else 0)"
    by (rule front_end_row_counter [OF r])
  show ?case
  proof (cases b)
    case 0
    with r dls rows show ?thesis by simp
  next
    case (Suc j)
    with Cons.prems(2) have j: "j < length xss" by simp
    from Cons.IH [OF rs j] obtain kb' where
      "front_end_row draws (k1 + length (filter (\<lambda>dl. L < dl div fs) (take j dls'))) fs L
         (dls' ! j) (xss ! j) = Inr (rows' ! j, kb')"
      by blast
    then show ?thesis
      using Suc dls rows k1 by (auto simp: add.assoc)
  qed
qed

lemma front_end_rows_length:
  "front_end_rows draws k fs L dls xss = Inr (rows, k') \<Longrightarrow> length rows = length xss"
proof (induction xss arbitrary: dls k rows)
  case Nil
  then show ?case by simp
next
  case (Cons xs xss)
  from Cons.prems(1) obtain dl dls' where dls: "dls = dl # dls'"
    by (cases dls) auto
  from Cons.prems(1) obtain row k1 where r: "front_end_row draws k fs L dl xs = Inr (row, k1)"
    by (auto simp: dls bind_err_def split: sum.splits)
  with Cons.prems(1) obtain rows' where rs: "front_end_rows draws k1 fs L dls' xss = Inr (rows', k')"
    and rows: "rows = row # rows'"
    by (auto simp: dls bind_err_def split: sum.splits)
  from Cons.IH [OF rs] rows show ?case by simp
qed

lemma front_end_Inr:
  assumes "front_end E mem draws k wav idx L dls = Inr (out, k')"
  shows "idx < n_modules mem" "0 \<le> L" "idx < length (frame_hops mem)"
    and "front_end_rows draws k (frame_hops mem ! idx) L dls (m_frontend E idx wav) = Inr (out, k')"
  using assms by (auto simp: front_end_def Let_def split: if_splits)

lemma front_end_row_hop:
  "front_end_row draws k fs L dl xs = Inr res \<Longrightarrow> fs \<noteq> 0"
  by (auto simp: front_end_row_def)

lemma front_end_nth:
  assumes "front_end E mem draws k wav idx L dls = Inr (out, k')"
    and "b < length (m_frontend E idx wav)"
  shows "length out = length (m_frontend E idx wav)"
    and "frame_hops mem ! idx \<noteq> 0" and "0 \<le> L"
    and "\<exists>kb'. front_end_row draws
                  (k + length (filter (\<lambda>dl. L < dl div frame_hops mem ! idx) (take b dls)))
                  (frame_hops mem ! idx) L (dls ! b) (m_frontend E idx wav ! b) = Inr (out ! b, kb')"
proof -
  note f = front_end_Inr [OF assms(1)]
  show "length out = length (m_frontend E idx wav)"
    by (rule front_end_rows_length [OF f(4)])
  show "0 \<le> L" by (rule f(2))
  from front_end_rows_nth [OF f(4) assms(2)]
  show ex: "\<exists>kb'. front_end_row draws
                  (k + length (filter (\<lambda>dl. L < dl div frame_hops mem ! idx) (take b dls)))
                  (frame_hops mem ! idx) L (dls ! b) (m_frontend E idx wav ! b) = Inr (out ! b, kb')" .
  then show "frame_hops mem ! idx \<noteq> 0"
    by (auto dest: front_end_row_hop)
qed

lemma front_end_total:
  assumes "idx < n_modules mem" "idx < length (frame_hops mem)" "frame_hops mem ! idx \<noteq> 0" "0 \<le> L"
    and "length (m_frontend E idx wav) \<le> length dls"
    and "\<And>i. i < length (m_frontend E idx wav) \<Longrightarrow>
            1 \<le> dls ! i div frame_hops mem ! idx
            \<and> dls ! i div frame_hops mem ! idx \<le> int (length (m_frontend E idx wav ! i))"
    and "\<And>n. 0 \<le> draws n \<and> draws n < 1"
  shows "\<exists>out k'. front_end E mem draws k wav idx L dls = Inr (out, k')"
proof -
  have "\<exists>rows k'. front_end_rows draws k (frame_hops mem ! idx) L dls (m_frontend E idx wav) = Inr (rows, k')
          \<and> length rows = length (m_frontend E idx wav) \<and> (\<forall>row \<in> set rows. length row = nat L)"
    using front_end_rows_total [where fs = "frame_hops mem ! idx" and L = L and draws = draws
        and xss = "m_frontend E idx wav" and dls = dls and k = k] assms(3-7)
    by blast
  then obtain rows k' where
    "front_end_rows draws k (frame_hops mem ! idx) L dls (m_frontend E idx wav) = Inr (rows, k')"
    by blast
  then show ?thesis
    using assms(1,2,4) by (simp add: front_end_def Let_def)
qed


text \<open>
  C3 (as the code has it): let \<open>_front_end\<close> of member \<open>idx\<close> return \<open>out\<close>, and let
  row \<open>b\<close> of the batch have a true frame count \<open>dls ! b div frame_hops mem ! idx\<close>
  that exceeds the truncation length \<open>L\<close>, the extracted row holding at least that
  many frames. Then row \<open>b\<close> of the output is the contiguous window of exactly \<open>L\<close>
  frames of the extracted row that starts at \<open>crop_pos r\<close>, where \<open>r\<close> in \<open>[0, 1)\<close> is
  the row's own draw: the draw number \<open>kb\<close>, one past the draws of the cropped rows
  before it. The start lies in \<open>[0, T - L - 1]\<close>, every offset of that range is the
  start for some draw, and the draws that give the offset \<open>off\<close> are exactly the
  interval \<open>[off / n, (off + 1) / n)\<close> with \<open>n = T - L\<close>: cells of equal width, so a
  uniform draw selects uniformly. The framer does return when every row has a true
  frame count of at least 1 that its extracted frames cover.
\<close>

theorem crop_window:
  assumes "b < length (m_frontend E idx wav)"
    and "L < dls ! b div frame_hops mem ! idx"
    and "dls ! b div frame_hops mem ! idx \<le> int (length (m_frontend E idx wav ! b))"
    and "kb = k + length (filter (\<lambda>dl. L < dl div frame_hops mem ! idx) (take b dls))"
    and "0 \<le> draws kb" "draws kb < 1"
  shows "(front_end E mem draws k wav idx L dls = Inr (out, k') \<longrightarrow>
            length out = length (m_frontend E idx wav)
          \<and> out ! b = take (nat L) (drop (nat (crop_pos (draws kb) (dls ! b div frame_hops mem ! idx) L))
                                      (m_frontend E idx wav ! b))
          \<and> length (out ! b) = nat L)
       \<and> 0 \<le> crop_pos (draws kb) (dls ! b div frame_hops mem ! idx) L
       \<and> crop_pos (draws kb) (dls ! b div frame_hops mem ! idx) L \<le> dls ! b div frame_hops mem ! idx - L - 1
       \<and> (\<forall>off. 0 \<le> off \<and> off \<le> dls ! b div frame_hops mem ! idx - L - 1 \<longrightarrow>
             (\<exists>r. 0 \<le> r \<and> r < 1 \<and> crop_pos r (dls ! b div frame_hops mem ! idx) L = off))
       \<and> (\<forall>r off. crop_pos r (dls ! b div frame_hops mem ! idx) L = off \<longleftrightarrow>
             real_of_int off / real_of_int (dls ! b div frame_hops mem ! idx - L) \<le> r
             \<and> r < (real_of_int off + 1) / real_of_int (dls ! b div frame_hops mem ! idx - L))
       \<and> (idx < n_modules mem \<and> idx < length (frame_hops mem) \<and> frame_hops mem ! idx \<noteq> 0 \<and> 0 \<le> L
            \<and> length (m_frontend E idx wav) \<le> length dls
            \<and> (\<forall>i. i < length (m_frontend E idx wav) \<longrightarrow>
                  1 \<le> dls ! i div frame_hops mem ! idx
                  \<and> dls ! i div frame_hops mem ! idx \<le> int (length (m_frontend E idx wav ! i)))
            \<and> (\<forall>n. 0 \<le> draws n \<and> draws n < 1)
          \<longrightarrow> (\<exists>res. front_end E mem draws k wav idx L dls = Inr res))"
proof -
  let ?X = "m_frontend E idx wav"
  let ?fs = "frame_hops mem ! idx"
  let ?T = "dls ! b div ?fs"
  let ?pos = "crop_pos (draws kb) ?T L"
  have out: "length out = length ?X \<and> out ! b = take (nat L) (drop (nat ?pos) (?X ! b))
             \<and> length (out ! b) = nat L"
    if f: "front_end E mem draws k wav idx L dls = Inr (out, k')"
  proof -
    note n = front_end_nth [OF f assms(1)]
    from n(4) assms(4) obtain kb' where
      r: "front_end_row draws kb ?fs L (dls ! b) (?X ! b) = Inr (out ! b, kb')"
      by auto
    note c = crop_row [of ?fs L "dls ! b" "?X ! b" draws kb, OF n(2) n(3) assms(2) assms(3) assms(5) assms(6)]
    from r c(1) have "out ! b = take (nat L) (drop (nat ?pos) (?X ! b))" by simp
    with c(2) n(1) show ?thesis by simp
  qed
  have tot: "\<exists>res. front_end E mem draws k wav idx L dls = Inr res"
    if h: "idx < n_modules mem \<and> idx < length (frame_hops mem) \<and> ?fs \<noteq> 0 \<and> 0 \<le> L
            \<and> length ?X \<le> length dls
            \<and> (\<forall>i. i < length ?X \<longrightarrow> 1 \<le> dls ! i div ?fs \<and> dls ! i div ?fs \<le> int (length (?X ! i)))
            \<and> (\<forall>n. 0 \<le> draws n \<and> draws n < 1)"
  proof -
    have "\<exists>out k'. front_end E mem draws k wav idx L dls = Inr (out, k')"
      using front_end_total [where E = E and mem = mem and idx = idx and wav = wav and dls = dls
          and L = L and draws = draws and k = k] h
      by blast
    then show ?thesis by blast
  qed
  note b = crop_pos_bounds [OF assms(5) assms(6) assms(2)]
  note reach = crop_pos_reachable [of _ ?T L]
  note cell = crop_pos_cell [OF assms(2)]
  show ?thesis
    using out tot b reach cell by blast
qed

text \<open>
  C4: let \<open>_front_end\<close> of member \<open>idx\<close> return \<open>out\<close>, and let row \<open>b\<close> of the batch
  have a true frame count \<open>T = dls ! b div frame_hops mem ! idx\<close> with \<open>0 < T \<le> L\<close>,
  the extracted row holding at least \<open>T\<close> frames. Then row \<open>b\<close> of the output has
  exactly \<open>L\<close> frames, its first \<open>T\<close> frames are the extracted ones, and its frame
  \<open>j\<close> is the extracted frame \<open>j mod T\<close>. The framer does return when every row has
  a true frame count of at least 1 that its extracted frames cover.
\<close>

theorem tile_periodic:
  assumes "b < length (m_frontend E idx wav)"
    and "0 < dls ! b div frame_hops mem ! idx"
    and "dls ! b div frame_hops mem ! idx \<le> L"
    and "dls ! b div frame_hops mem ! idx \<le> int (length (m_frontend E idx wav ! b))"
  shows "(front_end E mem draws k wav idx L dls = Inr (out, k') \<longrightarrow>
            length out = length (m_frontend E idx wav)
          \<and> length (out ! b) = nat L
          \<and> take (nat (dls ! b div frame_hops mem ! idx)) (out ! b)
              = take (nat (dls ! b div frame_hops mem ! idx)) (m_frontend E idx wav ! b)
          \<and> (\<forall>j. j < nat L \<longrightarrow>
                out ! b ! j = m_frontend E idx wav ! b ! (j mod nat (dls ! b div frame_hops mem ! idx))))
       \<and> (idx < n_modules mem \<and> idx < length (frame_hops mem) \<and> frame_hops mem ! idx \<noteq> 0 \<and> 0 \<le> L
            \<and> length (m_frontend E idx wav) \<le> length dls
            \<and> (\<forall>i. i < length (m_frontend E idx wav) \<longrightarrow>
                  1 \<le> dls ! i div frame_hops mem ! idx
                  \<and> dls ! i div frame_hops mem ! idx \<le> int (length (m_frontend E idx wav ! i)))
            \<and> (\<forall>n. 0 \<le> draws n \<and> draws n < 1)
          \<longrightarrow> (\<exists>res. front_end E mem draws k wav idx L dls = Inr res))"
proof -
  let ?X = "m_frontend E idx wav"
  let ?fs = "frame_hops mem ! idx"
  let ?T = "dls ! b div ?fs"
  have out: "length out = length ?X \<and> length (out ! b) = nat L
             \<and> take (nat ?T) (out ! b) = take (nat ?T) (?X ! b)
             \<and> (\<forall>j. j < nat L \<longrightarrow> out ! b ! j = ?X ! b ! (j mod nat ?T))"
    if f: "front_end E mem draws k wav idx L dls = Inr (out, k')"
  proof -
    note n = front_end_nth [OF f assms(1)]
    let ?kb = "k + length (filter (\<lambda>dl. L < dl div ?fs) (take b dls))"
    from n(4) obtain kb' where
      r: "front_end_row draws ?kb ?fs L (dls ! b) (?X ! b) = Inr (out ! b, kb')"
      by auto
    from tile_row_periodic [of ?fs "dls ! b" L "?X ! b" draws ?kb, OF n(2) assms(2) assms(3) assms(4)]
    obtain row where row: "front_end_row draws ?kb ?fs L (dls ! b) (?X ! b) = Inr (row, ?kb)"
      and p: "length row = nat L" "take (nat ?T) row = take (nat ?T) (?X ! b)"
        "\<forall>j. j < nat L \<longrightarrow> row ! j = ?X ! b ! (j mod nat ?T)"
      by blast
    from r row have "out ! b = row" by simp
    with p n(1) show ?thesis by simp
  qed
  have tot: "\<exists>res. front_end E mem draws k wav idx L dls = Inr res"
    if h: "idx < n_modules mem \<and> idx < length (frame_hops mem) \<and> ?fs \<noteq> 0 \<and> 0 \<le> L
            \<and> length ?X \<le> length dls
            \<and> (\<forall>i. i < length ?X \<longrightarrow> 1 \<le> dls ! i div ?fs \<and> dls ! i div ?fs \<le> int (length (?X ! i)))
            \<and> (\<forall>n. 0 \<le> draws n \<and> draws n < 1)"
  proof -
    have "\<exists>out k'. front_end E mem draws k wav idx L dls = Inr (out, k')"
      using front_end_total [where E = E and mem = mem and idx = idx and wav = wav and dls = dls
          and L = L and draws = draws and k = k] h
      by blast
    then show ?thesis by blast
  qed
  show ?thesis
    using out tot by blast
qed


lemma framing_example:
  "front_end \<lparr>m_frontend = (\<lambda>idx ws. ws), m_model = (\<lambda>idx rows. map sum_list rows),
          m_a_softmax = (\<lambda>idx es angle. (map real es, map real es))\<rparr>
     \<lparr>frame_hops = [160], frame_lens = [320], fft_n = [512], lfcc_dim = [20],
          v_truncate_lens = [750], n_modules = 1\<rparr>
     (\<lambda>_. 1 / 2) 0 [[10, 11, 12, 13], [20, 21 :: nat]] 0 2 [640, 320]
   = Inr ([[11, 12], [20, 21]], Suc 0)"
  by (simp add: front_end_def front_end_row_def crop_pos_def py_slice_def py_bound_def
      assign_bcast_def bind_err_def Let_def)

theorem crop_window_witness:
  "front_end \<lparr>m_frontend = (\<lambda>idx ws. ws), m_model = (\<lambda>idx rows. map sum_list rows),
          m_a_softmax = (\<lambda>idx es angle. (map real es, map real es))\<rparr>
     \<lparr>frame_hops = [160], frame_lens = [320], fft_n = [512], lfcc_dim = [20],
          v_truncate_lens = [750], n_modules = 1\<rparr>
     (\<lambda>_. 1 / 2) 0 [[10, 11, 12, 13], [20, 21 :: nat]] 0 2 [640, 320]
   = Inr ([[11, 12], [20, 21]], Suc 0)
   \<and> [[11, 12], [20, 21 :: nat]] ! 0 = take (nat 2) (drop (nat (crop_pos (1 / 2) 4 2)) [10, 11, 12, 13])
   \<and> crop_pos (1 / 2) 4 2 = 1"
  using framing_example
    crop_window [where E = "\<lparr>m_frontend = (\<lambda>idx ws. ws), m_model = (\<lambda>idx rows. map sum_list rows),
          m_a_softmax = (\<lambda>idx es angle. (map real es, map real es))\<rparr>"
      and mem = "\<lparr>frame_hops = [160], frame_lens = [320], fft_n = [512], lfcc_dim = [20],
          v_truncate_lens = [750], n_modules = 1\<rparr>"
      and draws = "\<lambda>_. 1 / 2" and k = 0 and wav = "[[10, 11, 12, 13], [20, 21 :: nat]]"
      and idx = 0 and L = 2 and dls = "[640, 320]" and b = 0 and kb = 0
      and out = "[[11, 12], [20, 21]]" and k' = "Suc 0"]
  by (simp add: crop_pos_def)

theorem tile_periodic_witness:
  "front_end \<lparr>m_frontend = (\<lambda>idx ws. ws), m_model = (\<lambda>idx rows. map sum_list rows),
          m_a_softmax = (\<lambda>idx es angle. (map real es, map real es))\<rparr>
     \<lparr>frame_hops = [160], frame_lens = [320], fft_n = [512], lfcc_dim = [20],
          v_truncate_lens = [750], n_modules = 1\<rparr>
     (\<lambda>_. 1 / 2) 0 [[10, 11, 12, 13], [20, 21 :: nat]] 0 5 [640, 320]
   = Inr ([[10, 11, 12, 13, 10], [20, 21, 20, 21, 20]], 0)
   \<and> take 2 ([[10, 11, 12, 13, 10], [20, 21, 20, 21, 20 :: nat]] ! 1) = take 2 [20, 21]
   \<and> [[10, 11, 12, 13, 10], [20, 21, 20, 21, 20 :: nat]] ! 1 ! 3 = [20, 21] ! (3 mod 2)"
proof -
  have e: "front_end \<lparr>m_frontend = (\<lambda>idx ws. ws), m_model = (\<lambda>idx rows. map sum_list rows),
          m_a_softmax = (\<lambda>idx es angle. (map real es, map real es))\<rparr>
     \<lparr>frame_hops = [160], frame_lens = [320], fft_n = [512], lfcc_dim = [20],
          v_truncate_lens = [750], n_modules = 1\<rparr>
     (\<lambda>_. 1 / 2) 0 [[10, 11, 12, 13], [20, 21 :: nat]] 0 5 [640, 320]
   = Inr ([[10, 11, 12, 13, 10], [20, 21, 20, 21, 20]], 0)"
    by (simp add: front_end_def front_end_row_def crop_pos_def py_slice_def py_bound_def
        assign_bcast_def bind_err_def Let_def numeral_2_eq_2 numeral_3_eq_3)
  show ?thesis
    using e
      tile_periodic [where E = "\<lparr>m_frontend = (\<lambda>idx ws. ws), m_model = (\<lambda>idx rows. map sum_list rows),
          m_a_softmax = (\<lambda>idx es angle. (map real es, map real es))\<rparr>"
        and mem = "\<lparr>frame_hops = [160], frame_lens = [320], fft_n = [512], lfcc_dim = [20],
          v_truncate_lens = [750], n_modules = 1\<rparr>"
        and draws = "\<lambda>_. 1 / 2" and k = 0 and wav = "[[10, 11, 12, 13], [20, 21 :: nat]]"
        and idx = 0 and L = 5 and dls = "[640, 320]" and b = 1
        and out = "[[10, 11, 12, 13, 10], [20, 21, 20, 21, 20]]" and k' = 0]
    by simp
qed

section \<open>Properties of the normalization layer\<close>

lemma bcast_op_same_length:
  "length xs = length ps \<Longrightarrow> bcast_op f xs ps = Inr (map2 f xs ps)"
  by (simp add: bcast_op_def)

lemma bcast_op_singleton:
  "length xs \<noteq> 1 \<Longrightarrow> bcast_op f xs [c] = Inr (map (\<lambda>x. f x c) xs)"
  by (simp add: bcast_op_def)

lemma roundtrip_elem:
  "s \<noteq> 0 \<Longrightarrow> fadd (fmul (fdiv (fsub (Some v) m) s) s) m = Some v"
  by (simp add: fadd_def fmul_def fdiv_def fsub_def)

lemma roundtrip_same_length:
  "length ms = length ys \<Longrightarrow> length ss = length ys \<Longrightarrow> \<forall>s \<in> set ss. s \<noteq> 0 \<Longrightarrow>
   map2 fadd (map2 fmul (map2 fdiv (map2 fsub (map Some ys) ms) ss) ss) ms = map Some ys"
proof (induction ys arbitrary: ms ss)
  case Nil
  then show ?case by simp
next
  case (Cons y ys)
  from Cons.prems obtain m ms' where ms: "ms = m # ms'"
    by (cases ms) auto
  from Cons.prems obtain s ss' where ss: "ss = s # ss'"
    by (cases ss) auto
  from Cons.prems ms ss have "s \<noteq> 0" and "\<forall>t \<in> set ss'. t \<noteq> 0"
    and "length ms' = length ys" and "length ss' = length ys"
    by auto
  then show ?case
    using Cons.IH [of ms' ss'] by (simp add: ms ss roundtrip_elem)
qed

text \<open>
  C1 (code as written): a model built without statistics is not a pass-through. On the
  one-dimensional tensor \<open>[1]\<close>, \<open>normalize_input\<close> divides by the zero input std and
  yields a non-finite element, \<open>normalize_target\<close> subtracts the output mean 1 and
  returns \<open>[0]\<close>, and \<open>denormalize_output\<close> adds it and returns \<open>[2]\<close>.
\<close>

theorem no_stats_not_pass_through:
  "prepare_mean_std 1 1 None =
     Inr \<lparr>input_mean = [0], input_std = [0], output_mean = [1], output_std = [1]\<rparr>
   \<and> bind_err (prepare_mean_std 1 1 None) (\<lambda>p. normalize_input p [Some 1]) = Inr [None]
   \<and> bind_err (prepare_mean_std 1 1 None) (\<lambda>p. normalize_target p [Some 1]) = Inr [Some 0]
   \<and> bind_err (prepare_mean_std 1 1 None) (\<lambda>p. denormalize_output p [Some 1]) = Inr [Some 2]"
  by (simp add: prepare_mean_std_def bind_err_def normalize_input_def normalize_target_def
      denormalize_output_def bcast_op_def fsub_def fdiv_def fmul_def fadd_def)

theorem no_stats_not_pass_through_witness:
  "bind_err (prepare_mean_std 1 1 None) (\<lambda>p. normalize_input p [Some 1]) \<noteq> Inr [Some 1]
   \<and> bind_err (prepare_mean_std 1 1 None) (\<lambda>p. normalize_target p [Some 1]) \<noteq> Inr [Some 1]
   \<and> bind_err (prepare_mean_std 1 1 None) (\<lambda>p. denormalize_output p [Some 1]) \<noteq> Inr [Some 1]"
proof -
  have a: "bind_err (prepare_mean_std 1 1 None) (\<lambda>p. normalize_input p [Some 1]) = Inr [None]"
    and b: "bind_err (prepare_mean_std 1 1 None) (\<lambda>p. normalize_target p [Some 1]) = Inr [Some 0]"
    and c: "bind_err (prepare_mean_std 1 1 None) (\<lambda>p. denormalize_output p [Some 1]) = Inr [Some 2]"
    using no_stats_not_pass_through by blast+
  show ?thesis
    unfolding a b c by simp
qed

text \<open>
  C9: over exact arithmetic, \<open>denormalize_output\<close> undoes \<open>normalize_target\<close> on every
  finite tensor \<open>y\<close> whose last axis has the size of the output statistics, provided
  no component of the output std is zero.
\<close>

theorem denormalize_normalize_target:
  assumes "\<forall>s \<in> set (output_std p). s \<noteq> 0"
    and "length (output_mean p) = length y"
    and "length (output_std p) = length y"
  shows "bind_err (normalize_target p (map Some y)) (denormalize_output p) = Inr (map Some y)"
proof -
  let ?m = "output_mean p" and ?s = "output_std p"
  have n: "normalize_target p (map Some y) = Inr (map2 fdiv (map2 fsub (map Some y) ?m) ?s)"
    using assms(2,3) by (simp add: normalize_target_def bind_err_def bcast_op_same_length)
  have d: "denormalize_output p (map2 fdiv (map2 fsub (map Some y) ?m) ?s)
           = Inr (map2 fadd (map2 fmul (map2 fdiv (map2 fsub (map Some y) ?m) ?s) ?s) ?m)"
    using assms(2,3) by (simp add: denormalize_output_def bind_err_def bcast_op_same_length)
  show ?thesis
    using n d roundtrip_same_length [OF assms(2) assms(3) assms(1)]
    by (simp add: bind_err_def)
qed

theorem denormalize_normalize_target_witness:
  "bind_err (normalize_target \<lparr>input_mean = [0], input_std = [1], output_mean = [3, 1], output_std = [2, 4]\<rparr>
              (map Some [5, 9]))
            (denormalize_output \<lparr>input_mean = [0], input_std = [1], output_mean = [3, 1], output_std = [2, 4]\<rparr>)
   = Inr (map Some [5, 9])"
  using denormalize_normalize_target
    [of "\<lparr>input_mean = [0], input_std = [1], output_mean = [3, 1], output_std = [2, 4]\<rparr>" "[5, 9]"]
  by simp

section \<open>Properties of the target resolver\<close>










section \<open>Properties of the stacked buffers\<close>

lemma assign_bcast_length: "assign_bcast n v = Inr v' \<Longrightarrow> length v' = n"
  by (auto simp: assign_bcast_def split: if_splits)

lemma assign_slice_block:
  assumes "length pre = s" "n \<le> length rest"
  shows "assign_slice (pre @ rest) s (s + n) v
         = bind_err (assign_bcast n v) (\<lambda>v'. Inr (pre @ v' @ drop n rest))"
proof -
  have lo: "min s (length (pre @ rest)) = s" using assms by simp
  have hi: "max s (min (s + n) (length (pre @ rest))) = s + n" using assms by simp
  show ?thesis
    unfolding assign_slice_def Let_def lo hi using assms by simp
qed

lemma blocks_nth:
  "\<forall>f \<in> set fs. length f = B \<Longrightarrow> i < length fs \<Longrightarrow>
   take B (drop (i * B) (concat fs @ ys)) = fs ! i"
proof (induction fs arbitrary: i)
  case Nil
  then show ?case by simp
next
  case (Cons f fs)
  show ?case
  proof (cases i)
    case 0
    with Cons.prems show ?thesis by simp
  next
    case (Suc j)
    with Cons.prems have "j < length fs" and "\<forall>g \<in> set fs. length g = B" and "length f = B"
      by auto
    with Cons.IH [of j] Suc show ?thesis by simp
  qed
qed

lemma length_concat_blocks:
  "\<forall>f \<in> set fs. length f = B \<Longrightarrow> length (concat fs) = length fs * B"
  by (induction fs) auto

lemma embed_loop_blocks:
  assumes "map fst items = [i0..<i0 + length items]"
    and "length pre = i0 * length x"
    and "length items * length x \<le> length rest"
  shows "embed_loop E mem draws x dls items (pre @ rest) k
         = bind_err (member_rows E mem draws x dls items k) (\<lambda>(feats, k').
             Inr (pre @ concat feats @ drop (length items * length x) rest, k'))"
  using assms
proof (induction items arbitrary: i0 pre rest k)
  case Nil
  then show ?case by (simp add: bind_err_def)
next
  case (Cons item items)
  obtain idx tl where item: "item = (idx, tl)" by (cases item)
  have "[i0..<i0 + length (item # items)] = i0 # [Suc i0..<Suc i0 + length items]"
    by (simp add: upt_conv_Cons del: upt_Suc)
  with Cons.prems(1) have idx: "idx = i0"
    and rest_idx: "map fst items = [Suc i0..<Suc i0 + length items]"
    by (simp_all add: item del: upt_Suc)
  from Cons.prems(3) have B: "length x \<le> length rest"
    and restlen: "length items * length x \<le> length (drop (length x) rest)"
    by auto
  have slice: "assign_slice (pre @ rest) (idx * length x) ((idx + 1) * length x) v
               = bind_err (assign_bcast (length x) v) (\<lambda>v'. Inr (pre @ v' @ drop (length x) rest))" for v
    using assign_slice_block [of pre "i0 * length x" "length x" rest v] Cons.prems(2) B idx
    by (simp add: add.commute)
  show ?case
  proof (cases "front_end E mem draws k x idx tl dls")
    case (Inl e)
    then show ?thesis by (simp add: item bind_err_def)
  next
    case (Inr r)
    obtain xsp k1 where r: "r = (xsp, k1)" by (cases r)
    show ?thesis
    proof (cases "assign_bcast (length x) (m_model E idx xsp)")
      case (Inl e)
      with Inr r slice show ?thesis by (simp add: item bind_err_def)
    next
      case inr: (Inr v')
      have lv: "length v' = length x" by (rule assign_bcast_length [OF inr])
      have pre': "length (pre @ v') = Suc i0 * length x"
        using Cons.prems(2) lv by simp
      from Cons.IH [OF rest_idx pre' restlen, of k1]
      have "embed_loop E mem draws x dls items ((pre @ v') @ drop (length x) rest) k1
            = bind_err (member_rows E mem draws x dls items k1) (\<lambda>(feats, k').
                Inr ((pre @ v') @ concat feats @ drop (length items * length x) (drop (length x) rest), k'))" .
      with Inr r inr slice show ?thesis
        by (simp add: item bind_err_def add.commute split: sum.splits prod.splits)
    qed
  qed
qed

lemma member_rows_blocks:
  "member_rows E mem draws x dls items k = Inr (feats, k') \<Longrightarrow>
   length feats = length items \<and> (\<forall>f \<in> set feats. length f = length x)"
proof (induction items arbitrary: k feats)
  case Nil
  then show ?case by simp
next
  case (Cons item items)
  obtain idx tl where item: "item = (idx, tl)" by (cases item)
  from Cons.prems obtain xsp k1 v more where
    f: "front_end E mem draws k x idx tl dls = Inr (xsp, k1)"
    and a: "assign_bcast (length x) (m_model E idx xsp) = Inr v"
    and m: "member_rows E mem draws x dls items k1 = Inr (more, k')"
    and feats: "feats = v # more"
    by (auto simp: item bind_err_def split: sum.splits prod.splits)
  from Cons.IH [OF m] assign_bcast_length [OF a] feats show ?case by simp
qed

lemma member_rows_nth:
  "member_rows E mem draws x dls items k = Inr (feats, k') \<Longrightarrow> i < length items \<Longrightarrow>
   \<exists>ki xsp ki'. front_end E mem draws ki x (fst (items ! i)) (snd (items ! i)) dls = Inr (xsp, ki')
                \<and> assign_bcast (length x) (m_model E (fst (items ! i)) xsp) = Inr (feats ! i)"
proof (induction items arbitrary: k feats i)
  case Nil
  then show ?case by simp
next
  case (Cons item items)
  obtain idx tl where item: "item = (idx, tl)" by (cases item)
  from Cons.prems(1) obtain xsp k1 v more where
    f: "front_end E mem draws k x idx tl dls = Inr (xsp, k1)"
    and a: "assign_bcast (length x) (m_model E idx xsp) = Inr v"
    and m: "member_rows E mem draws x dls items k1 = Inr (more, k')"
    and feats: "feats = v # more"
    by (auto simp: item bind_err_def split: sum.splits prod.splits)
  show ?case
  proof (cases i)
    case 0
    with f a feats item show ?thesis by auto
  next
    case (Suc j)
    with Cons.prems(2) have "j < length items" by simp
    from Cons.IH [OF m this] Suc feats show ?thesis by simp
  qed
qed

lemma loop_items_facts:
  "map fst (loop_items mem) = [0..<0 + length (loop_items mem)]"
  "length (loop_items mem) \<le> v_submodels mem"
  "i < length (loop_items mem) \<Longrightarrow> loop_items mem ! i = (i, v_truncate_lens mem ! i)"
  "length (frame_hops mem) = v_submodels mem \<Longrightarrow> length (fft_n mem) = v_submodels mem \<Longrightarrow>
   length (v_truncate_lens mem) = v_submodels mem \<Longrightarrow> n_modules mem = v_submodels mem \<Longrightarrow>
   length (loop_items mem) = v_submodels mem"
proof -
  define n where "n = min (length (frame_hops mem)) (min (length (frame_lens mem)) (min (length (fft_n mem))
                (min (length (v_truncate_lens mem)) (n_modules mem))))"
  have items: "loop_items mem = zip [0..<n] (v_truncate_lens mem)"
    by (simp add: loop_items_def n_def Let_def)
  have n1: "n \<le> length (v_truncate_lens mem)" and n2: "n \<le> length (frame_lens mem)"
    by (simp_all add: n_def)
  have len: "length (loop_items mem) = n"
    using n1 by (simp add: items)
  show "map fst (loop_items mem) = [0..<0 + length (loop_items mem)]"
    unfolding len unfolding items using n1 by (simp add: map_fst_zip_take)
  show "length (loop_items mem) \<le> v_submodels mem"
    using len n2 by (simp add: v_submodels_def)
  show "loop_items mem ! i = (i, v_truncate_lens mem ! i)" if "i < length (loop_items mem)"
    using that len n1 by (simp add: items)
  show "length (loop_items mem) = v_submodels mem"
    if "length (frame_hops mem) = v_submodels mem" "length (fft_n mem) = v_submodels mem"
      "length (v_truncate_lens mem) = v_submodels mem" "n_modules mem = v_submodels mem"
    using that len by (simp add: n_def v_submodels_def)
qed

lemma compute_embedding_blocks:
  assumes "compute_embedding E mem zero draws k x dls = Inr (out, k')"
  shows "\<exists>feats. member_rows E mem draws x dls (loop_items mem) k = Inr (feats, k')
           \<and> out = concat feats
                   @ replicate ((v_submodels mem - length (loop_items mem)) * length x) zero"
proof -
  let ?items = "loop_items mem"
  let ?buf = "replicate (length x * v_submodels mem) zero"
  have le: "length ?items * length x \<le> length ?buf"
    using loop_items_facts(2) [of mem] by (simp add: mult.commute)
  have "embed_loop E mem draws x dls ?items ([] @ ?buf) k
        = bind_err (member_rows E mem draws x dls ?items k) (\<lambda>(feats, k').
            Inr ([] @ concat feats @ drop (length ?items * length x) ?buf, k'))"
    by (rule embed_loop_blocks [OF loop_items_facts(1) _ le]) simp
  with assms obtain feats where
    m: "member_rows E mem draws x dls ?items k = Inr (feats, k')"
    and o: "out = concat feats @ drop (length ?items * length x) ?buf"
    by (auto simp: compute_embedding_def bind_err_def split: sum.splits prod.splits)
  have "drop (length ?items * length x) ?buf
        = replicate ((v_submodels mem - length ?items) * length x) zero"
    by (simp add: diff_mult_distrib2 mult.commute)
  with m o show ?thesis by simp
qed

lemma compute_embedding_layout:
  assumes "compute_embedding E mem zero draws k x dls = Inr (out, k')"
  shows "length out = length x * v_submodels mem"
    and "i < length (loop_items mem) \<Longrightarrow>
         \<exists>ki xsp ki'. front_end E mem draws ki x i (v_truncate_lens mem ! i) dls = Inr (xsp, ki')
           \<and> assign_bcast (length x) (m_model E i xsp) = Inr (take (length x) (drop (i * length x) out))"
    and "drop (length (loop_items mem) * length x) out
         = replicate ((v_submodels mem - length (loop_items mem)) * length x) zero"
proof -
  from compute_embedding_blocks [OF assms] obtain feats where
    m: "member_rows E mem draws x dls (loop_items mem) k = Inr (feats, k')"
    and o: "out = concat feats
                   @ replicate ((v_submodels mem - length (loop_items mem)) * length x) zero"
    by blast
  note b = member_rows_blocks [OF m]
  from b have lc: "length (concat feats) = length (loop_items mem) * length x"
    using length_concat_blocks [of feats "length x"] by simp
  show "length out = length x * v_submodels mem"
    using o lc loop_items_facts(2) [of mem]
    by (simp add: add_mult_distrib [symmetric])
  show "drop (length (loop_items mem) * length x) out
         = replicate ((v_submodels mem - length (loop_items mem)) * length x) zero"
    using o lc by simp
  show "\<exists>ki xsp ki'. front_end E mem draws ki x i (v_truncate_lens mem ! i) dls = Inr (xsp, ki')
           \<and> assign_bcast (length x) (m_model E i xsp) = Inr (take (length x) (drop (i * length x) out))"
    if i: "i < length (loop_items mem)"
  proof -
    from b i have "take (length x) (drop (i * length x) out) = feats ! i"
      unfolding o by (intro blocks_nth) auto
    with member_rows_nth [OF m i] loop_items_facts(3) [OF i] show ?thesis by simp
  qed
qed

lemma py_slice_nat:
  "py_slice xs (int s) (int (s + n)) = take n (drop s xs)"
  by (simp add: py_slice_nonneg nat_add_distrib)

lemma score_loop_blocks:
  assumes "length prec = i0 * bs" "m * bs \<le> length restc"
    and "length prep = i0 * bs" "m * bs \<le> length restp"
  shows "score_loop E mem fv angle bs [i0..<i0 + m] (prec @ restc) (prep @ restp)
         = bind_err (member_scores E mem fv angle bs [i0..<i0 + m]) (\<lambda>(cs, ps).
             Inr (prec @ concat cs @ drop (m * bs) restc, prep @ concat ps @ drop (m * bs) restp))"
  using assms
proof (induction m arbitrary: i0 prec restc prep restp)
  case 0
  then show ?case by (simp add: bind_err_def)
next
  case (Suc m)
  have upt: "[i0..<i0 + Suc m] = i0 # [Suc i0..<Suc i0 + m]"
    by (simp add: upt_conv_Cons del: upt_Suc)
  from Suc.prems have bc: "bs \<le> length restc" and bp: "bs \<le> length restp"
    and rc: "m * bs \<le> length (drop bs restc)" and rp: "m * bs \<le> length (drop bs restp)"
    by auto
  have sc: "assign_slice (prec @ restc) (i0 * bs) (i0 * bs + bs) v
            = bind_err (assign_bcast bs v) (\<lambda>v'. Inr (prec @ v' @ drop bs restc))" for v
    by (rule assign_slice_block [OF Suc.prems(1) bc])
  have sp: "assign_slice (prep @ restp) (i0 * bs) (i0 * bs + bs) v
            = bind_err (assign_bcast bs v) (\<lambda>v'. Inr (prep @ v' @ drop bs restp))" for v
    by (rule assign_slice_block [OF Suc.prems(3) bp])
  have ps: "py_slice fv (int (i0 * bs)) (int (i0 * bs + bs)) = take bs (drop (i0 * bs) fv)"
    by (rule py_slice_nat)
  have step: "score_loop E mem fv angle bs (i0 # rest) C P =
      (if n_modules mem \<le> i0 then Inl IndexError
       else case m_a_softmax E i0 (take bs (drop (i0 * bs) fv)) angle of
         (tmp1, tmp2) \<Rightarrow>
           bind_err (assign_slice C (i0 * bs) (i0 * bs + bs) tmp1) (\<lambda>C'.
             bind_err (assign_slice P (i0 * bs) (i0 * bs + bs) tmp2) (\<lambda>P'.
               score_loop E mem fv angle bs rest C' P')))" for rest C P
    by (simp only: score_loop.simps Let_def ps)
  show ?case
  proof (cases "n_modules mem \<le> i0")
    case True
    then show ?thesis unfolding upt step by (simp add: bind_err_def)
  next
    case False
    obtain tmp1 tmp2 where t: "m_a_softmax E i0 (take bs (drop (i0 * bs) fv)) angle = (tmp1, tmp2)"
      by (cases "m_a_softmax E i0 (take bs (drop (i0 * bs) fv)) angle")
    show ?thesis
    proof (cases "assign_bcast bs tmp1")
      case (Inl e)
      with False t show ?thesis
        unfolding upt step sc by (simp add: bind_err_def)
    next
      case c: (Inr c)
      show ?thesis
      proof (cases "assign_bcast bs tmp2")
        case (Inl e)
        with False t c show ?thesis
          unfolding upt step sc sp by (simp add: bind_err_def)
      next
        case p: (Inr p)
        have lc: "length (prec @ c) = Suc i0 * bs"
          using Suc.prems(1) assign_bcast_length [OF c] by simp
        have lp: "length (prep @ p) = Suc i0 * bs"
          using Suc.prems(3) assign_bcast_length [OF p] by simp
        from Suc.IH [OF lc rc lp rp]
        have ih: "score_loop E mem fv angle bs [Suc i0..<Suc i0 + m]
                ((prec @ c) @ drop bs restc) ((prep @ p) @ drop bs restp)
              = bind_err (member_scores E mem fv angle bs [Suc i0..<Suc i0 + m]) (\<lambda>(cs, ps).
                  Inr ((prec @ c) @ concat cs @ drop (m * bs) (drop bs restc),
                       (prep @ p) @ concat ps @ drop (m * bs) (drop bs restp)))" .
        have l: "score_loop E mem fv angle bs [i0..<i0 + Suc m] (prec @ restc) (prep @ restp)
                 = score_loop E mem fv angle bs [Suc i0..<Suc i0 + m]
                     ((prec @ c) @ drop bs restc) ((prep @ p) @ drop bs restp)"
          unfolding upt step sc sp using False t c p by (simp add: bind_err_def)
        have r: "member_scores E mem fv angle bs [i0..<i0 + Suc m]
                 = bind_err (member_scores E mem fv angle bs [Suc i0..<Suc i0 + m]) (\<lambda>(cs, ps).
                     Inr (c # cs, p # ps))"
          unfolding upt using False t c p by (simp add: bind_err_def)
        show ?thesis
          unfolding l ih r
          by (simp add: bind_err_def add.commute split: sum.splits prod.splits)
      qed
    qed
  qed
qed

lemma member_scores_blocks:
  "member_scores E mem fv angle bs idxs = Inr (cs, ps) \<Longrightarrow>
   length cs = length idxs \<and> length ps = length idxs
   \<and> (\<forall>c \<in> set cs. length c = bs) \<and> (\<forall>p \<in> set ps. length p = bs)"
proof (induction idxs arbitrary: cs ps)
  case Nil
  then show ?case by simp
next
  case (Cons idx idxs)
  from Cons.prems obtain c p cs' ps' where
    a: "assign_bcast bs (fst (m_a_softmax E idx (take bs (drop (idx * bs) fv)) angle)) = Inr c"
    and b: "assign_bcast bs (snd (m_a_softmax E idx (take bs (drop (idx * bs) fv)) angle)) = Inr p"
    and m: "member_scores E mem fv angle bs idxs = Inr (cs', ps')"
    and e: "cs = c # cs'" "ps = p # ps'"
    by (auto simp: bind_err_def split: if_splits sum.splits prod.splits)
  from Cons.IH [OF m] assign_bcast_length [OF a] assign_bcast_length [OF b] e show ?case by simp
qed

lemma member_scores_nth:
  "member_scores E mem fv angle bs idxs = Inr (cs, ps) \<Longrightarrow> i < length idxs \<Longrightarrow>
   assign_bcast bs (fst (m_a_softmax E (idxs ! i) (take bs (drop (idxs ! i * bs) fv)) angle)) = Inr (cs ! i)
   \<and> assign_bcast bs (snd (m_a_softmax E (idxs ! i) (take bs (drop (idxs ! i * bs) fv)) angle)) = Inr (ps ! i)"
proof (induction idxs arbitrary: cs ps i)
  case Nil
  then show ?case by simp
next
  case (Cons idx idxs)
  from Cons.prems(1) obtain c p cs' ps' where
    a: "assign_bcast bs (fst (m_a_softmax E idx (take bs (drop (idx * bs) fv)) angle)) = Inr c"
    and b: "assign_bcast bs (snd (m_a_softmax E idx (take bs (drop (idx * bs) fv)) angle)) = Inr p"
    and m: "member_scores E mem fv angle bs idxs = Inr (cs', ps')"
    and e: "cs = c # cs'" "ps = p # ps'"
    by (auto simp: bind_err_def split: if_splits sum.splits prod.splits)
  show ?case
  proof (cases i)
    case 0
    with a b e show ?thesis by simp
  next
    case (Suc j)
    with Cons.prems(2) have "j < length idxs" by simp
    from Cons.IH [OF m this] Suc e show ?thesis by simp
  qed
qed

lemma compute_score_layout:
  assumes "compute_score E mem fv angle = Inr (cv, pv)"
  shows "0 < v_submodels mem" and "length cv = length fv" and "length pv = length fv"
    and "i < v_submodels mem \<Longrightarrow>
         assign_bcast (length fv div v_submodels mem)
           (fst (m_a_softmax E i (take (length fv div v_submodels mem)
                                     (drop (i * (length fv div v_submodels mem)) fv)) angle))
         = Inr (take (length fv div v_submodels mem) (drop (i * (length fv div v_submodels mem)) cv))
       \<and> assign_bcast (length fv div v_submodels mem)
           (snd (m_a_softmax E i (take (length fv div v_submodels mem)
                                     (drop (i * (length fv div v_submodels mem)) fv)) angle))
         = Inr (take (length fv div v_submodels mem) (drop (i * (length fv div v_submodels mem)) pv))"
proof -
  let ?N = "v_submodels mem"
  let ?bs = "length fv div ?N"
  let ?z = "replicate (length fv) (0 :: real)"
  from assms show N: "0 < ?N"
    by (auto simp: compute_score_def split: if_splits)
  from assms N have sl: "score_loop E mem fv angle ?bs [0..<0 + ?N] ([] @ ?z) ([] @ ?z) = Inr (cv, pv)"
    by (simp add: compute_score_def Let_def)
  have le: "?N * ?bs \<le> length ?z" by simp
  have "score_loop E mem fv angle ?bs [0..<0 + ?N] ([] @ ?z) ([] @ ?z)
        = bind_err (member_scores E mem fv angle ?bs [0..<0 + ?N]) (\<lambda>(cs, ps).
            Inr ([] @ concat cs @ drop (?N * ?bs) ?z, [] @ concat ps @ drop (?N * ?bs) ?z))"
    by (rule score_loop_blocks [OF _ le _ le]) simp_all
  with sl obtain cs ps where
    m: "member_scores E mem fv angle ?bs [0..<0 + ?N] = Inr (cs, ps)"
    and c: "cv = concat cs @ drop (?N * ?bs) ?z"
    and p: "pv = concat ps @ drop (?N * ?bs) ?z"
    by (auto simp: bind_err_def split: sum.splits prod.splits)
  note b = member_scores_blocks [OF m]
  from b have lcs: "length (concat cs) = ?N * ?bs" and lps: "length (concat ps) = ?N * ?bs"
    using length_concat_blocks [of cs ?bs] length_concat_blocks [of ps ?bs] by simp_all
  show "length cv = length fv" using c lcs by simp
  show "length pv = length fv" using p lps by simp
  show "assign_bcast ?bs (fst (m_a_softmax E i (take ?bs (drop (i * ?bs) fv)) angle))
         = Inr (take ?bs (drop (i * ?bs) cv))
       \<and> assign_bcast ?bs (snd (m_a_softmax E i (take ?bs (drop (i * ?bs) fv)) angle))
         = Inr (take ?bs (drop (i * ?bs) pv))"
    if i: "i < ?N"
  proof -
    from b i have "take ?bs (drop (i * ?bs) cv) = cs ! i"
      unfolding c by (intro blocks_nth) auto
    moreover from b i have "take ?bs (drop (i * ?bs) pv) = ps ! i"
      unfolding p by (intro blocks_nth) auto
    ultimately show ?thesis
      using member_scores_nth [OF m, of i] i by simp
  qed
qed

lemma member_rows_total:
  assumes rowsM: "\<And>idx rows. length (m_model E idx rows) = length rows"
    and rowsF: "\<And>idx. length (m_frontend E idx x) = length x"
    and dr: "\<And>n. 0 \<le> draws n \<and> draws n < 1"
    and ld: "length x \<le> length dls"
  shows "(\<And>idx tl. (idx, tl) \<in> set items \<Longrightarrow>
            idx < n_modules mem \<and> idx < length (frame_hops mem) \<and> frame_hops mem ! idx \<noteq> 0 \<and> 0 \<le> tl
            \<and> (\<forall>i. i < length x \<longrightarrow> 1 \<le> dls ! i div frame_hops mem ! idx
                   \<and> dls ! i div frame_hops mem ! idx \<le> int (length (m_frontend E idx x ! i)))) \<Longrightarrow>
         \<exists>feats k'. member_rows E mem draws x dls items k = Inr (feats, k')"
proof (induction items arbitrary: k)
  case Nil
  then show ?case by simp
next
  case (Cons item items)
  obtain idx tl where item: "item = (idx, tl)" by (cases item)
  have h: "idx < n_modules mem" "idx < length (frame_hops mem)" "frame_hops mem ! idx \<noteq> 0" "0 \<le> tl"
    and hr: "\<And>i. i < length (m_frontend E idx x) \<Longrightarrow> 1 \<le> dls ! i div frame_hops mem ! idx
                   \<and> dls ! i div frame_hops mem ! idx \<le> int (length (m_frontend E idx x ! i))"
    using Cons.prems [of idx tl] rowsF [of idx] by (simp_all add: item)
  have ld': "length (m_frontend E idx x) \<le> length dls"
    using ld rowsF [of idx] by simp
  have "\<exists>out k1. front_end E mem draws k x idx tl dls = Inr (out, k1)"
    using front_end_total [where E = E and mem = mem and idx = idx and wav = x and dls = dls
        and L = tl and draws = draws and k = k] h hr ld' dr
    by blast
  then obtain out k1 where f: "front_end E mem draws k x idx tl dls = Inr (out, k1)"
    by blast
  have "length out = length x"
    using front_end_rows_length [OF front_end_Inr(4) [OF f]] rowsF [of idx] by simp
  then have a: "assign_bcast (length x) (m_model E idx out) = Inr (m_model E idx out)"
    using rowsM [of idx out] by (simp add: assign_bcast_exact)
  have "\<exists>feats k'. member_rows E mem draws x dls items k1 = Inr (feats, k')"
    by (rule Cons.IH) (use Cons.prems in auto)
  then obtain feats k' where "member_rows E mem draws x dls items k1 = Inr (feats, k')"
    by blast
  with f a show ?case by (simp add: item bind_err_def)
qed

lemma compute_embedding_total:
  assumes "\<And>idx rows. length (m_model E idx rows) = length rows"
    and "\<And>idx. length (m_frontend E idx x) = length x"
    and "\<And>n. 0 \<le> draws n \<and> draws n < 1"
    and "length x \<le> length dls"
    and "\<And>idx. idx < length (loop_items mem) \<Longrightarrow>
           frame_hops mem ! idx \<noteq> 0 \<and> 0 \<le> v_truncate_lens mem ! idx
           \<and> (\<forall>i. i < length x \<longrightarrow> 1 \<le> dls ! i div frame_hops mem ! idx
                  \<and> dls ! i div frame_hops mem ! idx \<le> int (length (m_frontend E idx x ! i)))"
  shows "\<exists>out k'. compute_embedding E mem zero draws k x dls = Inr (out, k')"
proof -
  let ?items = "loop_items mem"
  let ?buf = "replicate (length x * v_submodels mem) zero"
  have n: "length ?items \<le> n_modules mem" "length ?items \<le> length (frame_hops mem)"
    by (simp_all add: loop_items_def Let_def)
  have it: "idx < n_modules mem \<and> idx < length (frame_hops mem) \<and> frame_hops mem ! idx \<noteq> 0 \<and> 0 \<le> tl
            \<and> (\<forall>i. i < length x \<longrightarrow> 1 \<le> dls ! i div frame_hops mem ! idx
                   \<and> dls ! i div frame_hops mem ! idx \<le> int (length (m_frontend E idx x ! i)))"
    if "(idx, tl) \<in> set ?items" for idx tl
  proof -
    from that obtain j where j: "j < length ?items" and e: "?items ! j = (idx, tl)"
      by (auto simp: in_set_conv_nth)
    from loop_items_facts(3) [OF j] e have "idx = j" "tl = v_truncate_lens mem ! j" by simp_all
    with j n assms(5) [of j] show ?thesis by simp
  qed
  have "\<exists>feats k'. member_rows E mem draws x dls ?items k = Inr (feats, k')"
    by (rule member_rows_total [OF assms(1) assms(2) assms(3) assms(4)]) (rule it)
  then obtain feats k' where m: "member_rows E mem draws x dls ?items k = Inr (feats, k')"
    by blast
  have le: "length ?items * length x \<le> length ?buf"
    using loop_items_facts(2) [of mem] by (simp add: mult.commute)
  have "embed_loop E mem draws x dls ?items ([] @ ?buf) k
        = bind_err (member_rows E mem draws x dls ?items k) (\<lambda>(feats, k').
            Inr ([] @ concat feats @ drop (length ?items * length x) ?buf, k'))"
    by (rule embed_loop_blocks [OF loop_items_facts(1) _ le]) simp
  with m show ?thesis
    by (simp add: compute_embedding_def bind_err_def)
qed

lemma member_scores_total:
  assumes "\<And>idx es a. length (fst (m_a_softmax E idx es a)) = length es
                       \<and> length (snd (m_a_softmax E idx es a)) = length es"
  shows "(\<And>idx. idx \<in> set idxs \<Longrightarrow> idx < n_modules mem \<and> idx * bs + bs \<le> length fv) \<Longrightarrow>
         \<exists>cs ps. member_scores E mem fv angle bs idxs = Inr (cs, ps)"
proof (induction idxs)
  case Nil
  then show ?case by simp
next
  case (Cons idx idxs)
  let ?sl = "take bs (drop (idx * bs) fv)"
  from Cons.prems [of idx] have h: "idx < n_modules mem" "idx * bs + bs \<le> length fv" by simp_all
  then have l: "length ?sl = bs" by simp
  obtain tmp1 tmp2 where t: "m_a_softmax E idx ?sl angle = (tmp1, tmp2)"
    by (cases "m_a_softmax E idx ?sl angle")
  from assms [of idx ?sl angle] t l have "length tmp1 = bs" "length tmp2 = bs" by simp_all
  then have a: "assign_bcast bs tmp1 = Inr tmp1" "assign_bcast bs tmp2 = Inr tmp2"
    by (simp_all add: assign_bcast_exact)
  have "\<exists>cs ps. member_scores E mem fv angle bs idxs = Inr (cs, ps)"
    by (rule Cons.IH) (use Cons.prems in auto)
  then obtain cs ps where "member_scores E mem fv angle bs idxs = Inr (cs, ps)" by blast
  with h t a show ?case by (simp add: bind_err_def)
qed

lemma compute_score_total:
  assumes "\<And>idx es a. length (fst (m_a_softmax E idx es a)) = length es
                       \<and> length (snd (m_a_softmax E idx es a)) = length es"
    and "0 < v_submodels mem" "v_submodels mem \<le> n_modules mem"
  shows "\<exists>cv pv. compute_score E mem fv angle = Inr (cv, pv)"
proof -
  let ?N = "v_submodels mem"
  let ?bs = "length fv div ?N"
  let ?z = "replicate (length fv) (0 :: real)"
  have in_range: "idx < n_modules mem \<and> idx * ?bs + ?bs \<le> length fv" if "idx \<in> set [0..<0 + ?N]" for idx
  proof -
    from that have i: "Suc idx \<le> ?N" by simp
    then have "Suc idx * ?bs \<le> ?N * ?bs" by (rule mult_le_mono1)
    also have "\<dots> \<le> length fv" by simp
    finally show ?thesis using i assms(3) by simp
  qed
  have "\<exists>cs ps. member_scores E mem fv angle ?bs [0..<0 + ?N] = Inr (cs, ps)"
    by (rule member_scores_total [OF assms(1)]) (rule in_range)
  then obtain cs ps where m: "member_scores E mem fv angle ?bs [0..<0 + ?N] = Inr (cs, ps)"
    by blast
  have le: "?N * ?bs \<le> length ?z" by simp
  have "score_loop E mem fv angle ?bs [0..<0 + ?N] ([] @ ?z) ([] @ ?z)
        = bind_err (member_scores E mem fv angle ?bs [0..<0 + ?N]) (\<lambda>(cs, ps).
            Inr ([] @ concat cs @ drop (?N * ?bs) ?z, [] @ concat ps @ drop (?N * ?bs) ?z))"
    by (rule score_loop_blocks [OF _ le _ le]) simp_all
  with m assms(2) show ?thesis
    by (simp add: compute_score_def Let_def bind_err_def)
qed

text \<open>
  C5: when \<open>_compute_embedding\<close> returns \<open>out\<close> for a batch \<open>x\<close>, \<open>out\<close> has exactly
  \<open>length x * v_submodels mem\<close> rows, and the rows \<open>[i * B, (i + 1) * B)\<close>, with
  \<open>B = length x\<close>, are the embeddings that the backbone of member \<open>i\<close> returned for
  the framed features of member \<open>i\<close> (copied, or broadcast from a single row), for
  every member \<open>i\<close> of the loop; rows of members the loop does not reach stay zero, and
  the loop reaches all \<open>v_submodels mem\<close> members when the per-member arrays have that
  common length. When \<open>_compute_score\<close> returns for \<open>out\<close>, its cosine and margin
  buffers have the rows of \<open>out\<close>, and their rows \<open>[i * B, (i + 1) * B)\<close> are what
  the angular layer of member \<open>i\<close> returned for the rows \<open>[i * B, (i + 1) * B)\<close> of
  \<open>out\<close>. Both functions do return when the collaborators keep the number of rows
  and every row has a true frame count of at least 1 that its extracted frames cover.
\<close>

theorem stacked_layout:
  "(compute_embedding E mem zero draws k x dls = Inr (out, k') \<longrightarrow>
      length out = length x * v_submodels mem
    \<and> (i < length (loop_items mem) \<longrightarrow>
         (\<exists>ki xsp ki'. front_end E mem draws ki x i (v_truncate_lens mem ! i) dls = Inr (xsp, ki')
            \<and> assign_bcast (length x) (m_model E i xsp)
                = Inr (take (length x) (drop (i * length x) out))))
    \<and> drop (length (loop_items mem) * length x) out
        = replicate ((v_submodels mem - length (loop_items mem)) * length x) zero
    \<and> (compute_score E mem out angle = Inr (cv, pv) \<longrightarrow>
          length cv = length out \<and> length pv = length out
        \<and> (i < v_submodels mem \<longrightarrow>
              assign_bcast (length x)
                (fst (m_a_softmax E i (take (length x) (drop (i * length x) out)) angle))
              = Inr (take (length x) (drop (i * length x) cv))
            \<and> assign_bcast (length x)
                (snd (m_a_softmax E i (take (length x) (drop (i * length x) out)) angle))
              = Inr (take (length x) (drop (i * length x) pv)))))
   \<and> (length (frame_hops mem) = v_submodels mem \<and> length (fft_n mem) = v_submodels mem
       \<and> length (v_truncate_lens mem) = v_submodels mem \<and> n_modules mem = v_submodels mem
      \<longrightarrow> length (loop_items mem) = v_submodels mem)
   \<and> ((\<forall>idx rows. length (m_model E idx rows) = length rows)
       \<and> (\<forall>idx. length (m_frontend E idx x) = length x)
       \<and> (\<forall>idx es a. length (fst (m_a_softmax E idx es a)) = length es
                     \<and> length (snd (m_a_softmax E idx es a)) = length es)
       \<and> (\<forall>n. 0 \<le> draws n \<and> draws n < 1)
       \<and> length x \<le> length dls
       \<and> (\<forall>idx. idx < length (loop_items mem) \<longrightarrow>
             frame_hops mem ! idx \<noteq> 0 \<and> 0 \<le> v_truncate_lens mem ! idx
             \<and> (\<forall>b. b < length x \<longrightarrow> 1 \<le> dls ! b div frame_hops mem ! idx
                    \<and> dls ! b div frame_hops mem ! idx \<le> int (length (m_frontend E idx x ! b))))
      \<longrightarrow> (\<exists>res. compute_embedding E mem zero draws k x dls = Inr res)
        \<and> (0 < v_submodels mem \<and> v_submodels mem \<le> n_modules mem \<longrightarrow>
             (\<exists>sc. compute_score E mem out angle = Inr sc)))"
proof (intro conjI impI)
  assume e: "compute_embedding E mem zero draws k x dls = Inr (out, k')"
  note l = compute_embedding_layout [OF e]
  show len: "length out = length x * v_submodels mem" by (rule l(1))
  show "drop (length (loop_items mem) * length x) out
        = replicate ((v_submodels mem - length (loop_items mem)) * length x) zero"
    by (rule l(3))
  {
    assume "i < length (loop_items mem)"
    then show "\<exists>ki xsp ki'. front_end E mem draws ki x i (v_truncate_lens mem ! i) dls = Inr (xsp, ki')
            \<and> assign_bcast (length x) (m_model E i xsp)
                = Inr (take (length x) (drop (i * length x) out))"
      by (rule l(2))
  }
  {
    assume s: "compute_score E mem out angle = Inr (cv, pv)"
    note c = compute_score_layout [OF s]
    show "length cv = length out" by (rule c(2))
    show "length pv = length out" by (rule c(3))
    have bs: "length out div v_submodels mem = length x"
      using c(1) len by simp
    {
      assume i: "i < v_submodels mem"
      from c(4) [OF i] show
        "assign_bcast (length x)
           (fst (m_a_softmax E i (take (length x) (drop (i * length x) out)) angle))
         = Inr (take (length x) (drop (i * length x) cv))"
        and "assign_bcast (length x)
           (snd (m_a_softmax E i (take (length x) (drop (i * length x) out)) angle))
         = Inr (take (length x) (drop (i * length x) pv))"
        unfolding bs by simp_all
    }
  }
next
  assume "length (frame_hops mem) = v_submodels mem \<and> length (fft_n mem) = v_submodels mem
       \<and> length (v_truncate_lens mem) = v_submodels mem \<and> n_modules mem = v_submodels mem"
  then show "length (loop_items mem) = v_submodels mem"
    using loop_items_facts(4) [of mem] by blast
next
  assume h: "(\<forall>idx rows. length (m_model E idx rows) = length rows)
       \<and> (\<forall>idx. length (m_frontend E idx x) = length x)
       \<and> (\<forall>idx es a. length (fst (m_a_softmax E idx es a)) = length es
                     \<and> length (snd (m_a_softmax E idx es a)) = length es)
       \<and> (\<forall>n. 0 \<le> draws n \<and> draws n < 1)
       \<and> length x \<le> length dls
       \<and> (\<forall>idx. idx < length (loop_items mem) \<longrightarrow>
             frame_hops mem ! idx \<noteq> 0 \<and> 0 \<le> v_truncate_lens mem ! idx
             \<and> (\<forall>b. b < length x \<longrightarrow> 1 \<le> dls ! b div frame_hops mem ! idx
                    \<and> dls ! b div frame_hops mem ! idx \<le> int (length (m_frontend E idx x ! b))))"
  have "\<exists>out k'. compute_embedding E mem zero draws k x dls = Inr (out, k')"
    using compute_embedding_total [where E = E and x = x and draws = draws and dls = dls
        and mem = mem and zero = zero and k = k] h
    by blast
  then show "\<exists>res. compute_embedding E mem zero draws k x dls = Inr res" by blast
  {
    assume "0 < v_submodels mem \<and> v_submodels mem \<le> n_modules mem"
    then have "\<exists>cv pv. compute_score E mem out angle = Inr (cv, pv)"
      using compute_score_total [where E = E and mem = mem and fv = out and angle = angle] h
      by blast
    then show "\<exists>sc. compute_score E mem out angle = Inr sc" by blast
  }
qed

lemma tile_single_frame:
  "front_end_row draws k 160 750 160 [w] = Inr (replicate 750 w, k)"
  by (simp add: front_end_row_def py_slice_def py_bound_def assign_bcast_def bind_err_def Let_def)

lemma embed_example:
  "compute_embedding \<lparr>m_frontend = (\<lambda>idx ws. ws), m_model = (\<lambda>idx rows. map (\<lambda>r. hd r + idx) rows),
          m_a_softmax = (\<lambda>idx es angle. (map real es, map (\<lambda>e. real e + 1) es))\<rparr>
     \<lparr>frame_hops = [160, 160], frame_lens = [320, 320], fft_n = [512, 512], lfcc_dim = [20, 20],
          v_truncate_lens = [750, 750], n_modules = 2\<rparr>
     0 (\<lambda>_. 1 / 2) 0 [[3], [5 :: nat]] [160, 160]
   = Inr ([3, 5, 4, 6], 0)"
  by (simp add: compute_embedding_def loop_items_def v_submodels_def front_end_def tile_single_frame
      assign_slice_def assign_bcast_def bind_err_def Let_def numeral_2_eq_2)

lemma score_example:
  "compute_score \<lparr>m_frontend = (\<lambda>idx ws. ws), m_model = (\<lambda>idx rows. map (\<lambda>r. hd r + idx) rows),
          m_a_softmax = (\<lambda>idx es angle. (map real es, map (\<lambda>e. real e + 1) es))\<rparr>
     \<lparr>frame_hops = [160, 160], frame_lens = [320, 320], fft_n = [512, 512], lfcc_dim = [20, 20],
          v_truncate_lens = [750, 750], n_modules = 2\<rparr>
     [3, 5, 4, 6] True
   = Inr ([3, 5, 4, 6], [4, 6, 5, 7])"
  by code_simp


theorem stacked_layout_witness:
  "compute_embedding \<lparr>m_frontend = (\<lambda>idx ws. ws), m_model = (\<lambda>idx rows. map (\<lambda>r. hd r + idx) rows),
          m_a_softmax = (\<lambda>idx es angle. (map real es, map (\<lambda>e. real e + 1) es))\<rparr>
     \<lparr>frame_hops = [160, 160], frame_lens = [320, 320], fft_n = [512, 512], lfcc_dim = [20, 20],
          v_truncate_lens = [750, 750], n_modules = 2\<rparr>
     0 (\<lambda>_. 1 / 2) 0 [[3], [5 :: nat]] [160, 160]
   = Inr ([3, 5, 4, 6], 0)
   \<and> length [3, 5, 4, 6 :: nat] = length [[3], [5 :: nat]] * 2
   \<and> compute_score \<lparr>m_frontend = (\<lambda>idx ws. ws), m_model = (\<lambda>idx rows. map (\<lambda>r. hd r + idx) rows),
          m_a_softmax = (\<lambda>idx es angle. (map real es, map (\<lambda>e. real e + 1) es))\<rparr>
     \<lparr>frame_hops = [160, 160], frame_lens = [320, 320], fft_n = [512, 512], lfcc_dim = [20, 20],
          v_truncate_lens = [750, 750], n_modules = 2\<rparr>
     [3, 5, 4, 6] True
   = Inr ([3, 5, 4, 6], [4, 6, 5, 7])
   \<and> assign_bcast 2 [4, 6 :: real] = Inr (take 2 (drop 2 [3, 5, 4, 6]))
   \<and> assign_bcast 2 [5, 7 :: real] = Inr (take 2 (drop 2 [4, 6, 5, 7]))"
proof -
  note t = stacked_layout [where E = "\<lparr>m_frontend = (\<lambda>idx ws. ws), m_model = (\<lambda>idx rows. map (\<lambda>r. hd r + idx) rows),
          m_a_softmax = (\<lambda>idx es angle. (map real es, map (\<lambda>e. real e + 1) es))\<rparr>"
      and mem = "\<lparr>frame_hops = [160, 160], frame_lens = [320, 320], fft_n = [512, 512], lfcc_dim = [20, 20],
          v_truncate_lens = [750, 750], n_modules = 2\<rparr>"
      and zero = 0 and draws = "\<lambda>_. 1 / 2" and k = 0 and x = "[[3], [5 :: nat]]"
      and dls = "[160, 160]" and out = "[3, 5, 4, 6]" and k' = 0 and i = 1 and angle = True
      and cv = "[3, 5, 4, 6]" and pv = "[4, 6, 5, 7]"]
  note t1 = conjunct1 [OF t, THEN mp, OF embed_example]
  note t2 = t1 [THEN conjunct2, THEN conjunct2, THEN conjunct2, THEN mp, OF score_example]
  from t1 have a: "length [3, 5, 4, 6 :: nat] = length [[3], [5 :: nat]] * 2"
    by (simp add: v_submodels_def)
  from t2 have b: "assign_bcast 2 [4, 6 :: real] = Inr (take 2 (drop 2 [3, 5, 4, 6]))
                 \<and> assign_bcast 2 [5, 7 :: real] = Inr (take 2 (drop 2 [4, 6, 5, 7]))"
    by (simp add: v_submodels_def numeral_2_eq_2)
  from embed_example score_example a b show ?thesis by blast
qed

section \<open>Properties of the forward pass\<close>

lemma lookup_all_nth:
  "lookup_all tbl fs = Some ls \<Longrightarrow>
   length ls = length fs \<and> (\<forall>j. j < length fs \<longrightarrow> tbl (fs ! j) = Some (ls ! j))"
proof (induction fs arbitrary: ls)
  case Nil
  then show ?case by simp
next
  case (Cons f fs)
  from Cons.prems obtain v ls' where v: "tbl f = Some v" and l: "lookup_all tbl fs = Some ls'"
    and ls: "ls = v # ls'"
    by (auto split: option.splits)
  from Cons.IH [OF l] have len: "length ls' = length fs"
    and nth: "\<And>j. j < length fs \<Longrightarrow> tbl (fs ! j) = Some (ls' ! j)"
    by auto
  show ?case
  proof (intro conjI allI impI)
    show "length ls = length (f # fs)" using len ls by simp
    fix j assume "j < length (f # fs)"
    then show "tbl ((f # fs) ! j) = Some (ls ! j)"
      using v nth ls by (cases j) auto
  qed
qed

lemma get_target_nth:
  assumes "get_target tbl fs = Inr target"
  shows "length target = length fs" and "j < length fs \<Longrightarrow> tbl (fs ! j) = Some (target ! j)"
proof -
  from assms have "lookup_all tbl fs = Some target"
    by (auto simp: get_target_def split: option.splits)
  from lookup_all_nth [OF this]
  show "length target = length fs" and "j < length fs \<Longrightarrow> tbl (fs ! j) = Some (target ! j)"
    by auto
qed

lemma replicate_blocks:
  assumes "i < n"
  shows "take (length t) (drop (i * length t) (concat (replicate n t))) = t"
proof -
  have "take (length t) (drop (i * length t) (concat (replicate n t) @ [])) = replicate n t ! i"
    by (rule blocks_nth) (use assms in auto)
  with assms show ?thesis by simp
qed

lemma forward_training:
  "forward E mem tbl zero draws k True x fileinfo = Inr (lines, ret, k') \<longleftrightarrow>
   (\<exists>fv act target.
      compute_embedding E mem zero draws k x (map parse_length fileinfo) = Inr (fv, k')
    \<and> compute_score E mem fv False = Inr act
    \<and> get_target tbl (map parse_filename fileinfo) = Inr target
    \<and> lines = [] \<and> ret = TrainOut act (concat (replicate (v_submodels mem) target)) True)"
  by (auto simp: forward_def Let_def bind_err_def split: sum.splits prod.splits)

lemma forward_inference:
  "forward E mem tbl zero draws k False x fileinfo = Inr (lines, ret, k') \<longleftrightarrow>
   (\<exists>fv cv pv target f0 fs t0 ts.
      compute_embedding E mem zero draws k x (map parse_length fileinfo) = Inr (fv, k')
    \<and> compute_score E mem fv True = Inr (cv, pv)
    \<and> get_target tbl (map parse_filename fileinfo) = Inr target
    \<and> map parse_filename fileinfo = f0 # fs \<and> target = t0 # ts
    \<and> lines = [(f0, t0, mean cv)] \<and> ret = NoneOut)"
  by (auto simp: forward_def Let_def bind_err_def split: sum.splits prod.splits list.splits)

text \<open>
  C7: when the forward pass returns in training mode, it returns the score pair, the
  flag \<open>True\<close> and the target vector \<open>concat (replicate N target)\<close>, where \<open>target\<close>
  holds the labels of the batch's filenames in batch order and \<open>N = v_submodels mem\<close>:
  its length is \<open>batch * N\<close>, and for each member \<open>i\<close> the entries
  \<open>[i * batch, (i + 1) * batch)\<close> are \<open>target\<close> again. For a batch with one metadata
  entry per row the target vector has as many entries as the embedding and score
  buffers have rows. The pass does return when embedding, scoring and target lookup
  return; nothing is printed.
\<close>

theorem training_targets:
  "(forward E mem tbl zero draws k True x fileinfo = Inr (lines, ret, k') \<longrightarrow>
      (\<exists>act target fv.
          ret = TrainOut act (concat (replicate (v_submodels mem) target)) True
        \<and> lines = []
        \<and> compute_embedding E mem zero draws k x (map parse_length fileinfo) = Inr (fv, k')
        \<and> compute_score E mem fv False = Inr act
        \<and> get_target tbl (map parse_filename fileinfo) = Inr target
        \<and> length target = length fileinfo
        \<and> (\<forall>j. j < length fileinfo \<longrightarrow> tbl (filename (fileinfo ! j)) = Some (target ! j))
        \<and> length (concat (replicate (v_submodels mem) target)) = length fileinfo * v_submodels mem
        \<and> (\<forall>i. i < v_submodels mem \<longrightarrow>
              take (length fileinfo) (drop (i * length fileinfo)
                (concat (replicate (v_submodels mem) target))) = target)
        \<and> (length x = length fileinfo \<longrightarrow>
              length (concat (replicate (v_submodels mem) target)) = length fv
            \<and> length (fst act) = length fv \<and> length (snd act) = length fv)))
   \<and> (compute_embedding E mem zero draws k x (map parse_length fileinfo) = Inr (fv, k')
       \<and> compute_score E mem fv False = Inr act
       \<and> get_target tbl (map parse_filename fileinfo) = Inr target
      \<longrightarrow> forward E mem tbl zero draws k True x fileinfo
          = Inr ([], TrainOut act (concat (replicate (v_submodels mem) target)) True, k'))"
proof (intro conjI impI)
  assume "forward E mem tbl zero draws k True x fileinfo = Inr (lines, ret, k')"
  then obtain fv act target where
    e: "compute_embedding E mem zero draws k x (map parse_length fileinfo) = Inr (fv, k')"
    and s: "compute_score E mem fv False = Inr act"
    and g: "get_target tbl (map parse_filename fileinfo) = Inr target"
    and l: "lines = []"
    and r: "ret = TrainOut act (concat (replicate (v_submodels mem) target)) True"
    unfolding forward_training by blast
  let ?N = "v_submodels mem"
  let ?tv = "concat (replicate ?N target)"
  have lt: "length target = length fileinfo"
    using get_target_nth(1) [OF g] by simp
  have nth: "\<forall>j. j < length fileinfo \<longrightarrow> tbl (filename (fileinfo ! j)) = Some (target ! j)"
    using get_target_nth(2) [OF g] by (simp add: parse_filename_def)
  have ltv: "length ?tv = length fileinfo * ?N"
    using length_concat_blocks [of "replicate ?N target" "length target"] lt by simp
  have blocks: "\<forall>i. i < ?N \<longrightarrow> take (length fileinfo) (drop (i * length fileinfo) ?tv) = target"
    using replicate_blocks [of _ ?N target] lt by simp
  obtain cv pv where act: "act = (cv, pv)" by (cases act)
  have lay: "length ?tv = length fv \<and> length (fst act) = length fv \<and> length (snd act) = length fv"
    if "length x = length fileinfo"
    using that ltv compute_embedding_layout(1) [OF e]
      compute_score_layout(2,3) [OF s [unfolded act]] act
    by simp
  from e s g l r lt nth ltv blocks lay
  show "\<exists>act target fv.
          ret = TrainOut act (concat (replicate (v_submodels mem) target)) True
        \<and> lines = []
        \<and> compute_embedding E mem zero draws k x (map parse_length fileinfo) = Inr (fv, k')
        \<and> compute_score E mem fv False = Inr act
        \<and> get_target tbl (map parse_filename fileinfo) = Inr target
        \<and> length target = length fileinfo
        \<and> (\<forall>j. j < length fileinfo \<longrightarrow> tbl (filename (fileinfo ! j)) = Some (target ! j))
        \<and> length (concat (replicate (v_submodels mem) target)) = length fileinfo * v_submodels mem
        \<and> (\<forall>i. i < v_submodels mem \<longrightarrow>
              take (length fileinfo) (drop (i * length fileinfo)
                (concat (replicate (v_submodels mem) target))) = target)
        \<and> (length x = length fileinfo \<longrightarrow>
              length (concat (replicate (v_submodels mem) target)) = length fv
            \<and> length (fst act) = length fv \<and> length (snd act) = length fv)"
    by blast
next
  assume "compute_embedding E mem zero draws k x (map parse_length fileinfo) = Inr (fv, k')
       \<and> compute_score E mem fv False = Inr act
       \<and> get_target tbl (map parse_filename fileinfo) = Inr target"
  then show "forward E mem tbl zero draws k True x fileinfo
          = Inr ([], TrainOut act (concat (replicate (v_submodels mem) target)) True, k')"
    unfolding forward_training by blast
qed

lemma score_example_train:
  "compute_score \<lparr>m_frontend = (\<lambda>idx ws. ws), m_model = (\<lambda>idx rows. map (\<lambda>r. hd r + idx) rows),
          m_a_softmax = (\<lambda>idx es angle. (map real es, map (\<lambda>e. real e + 1) es))\<rparr>
     \<lparr>frame_hops = [160, 160], frame_lens = [320, 320], fft_n = [512, 512], lfcc_dim = [20, 20],
          v_truncate_lens = [750, 750], n_modules = 2\<rparr>
     [3, 5, 4, 6] False
   = Inr ([3, 5, 4, 6], [4, 6, 5, 7])"
  by code_simp

lemma target_example:
  "get_target [''f1'' \<mapsto> 1, ''f2'' \<mapsto> 0] (map parse_filename [\<lparr>filename = ''f1'', raw_length = 160\<rparr>, \<lparr>filename = ''f2'', raw_length = 160\<rparr>]) = Inr [1, 0]"
  by (simp add: get_target_def parse_filename_def)

theorem training_targets_witness:
  "forward \<lparr>m_frontend = (\<lambda>idx ws. ws), m_model = (\<lambda>idx rows. map (\<lambda>r. hd r + idx) rows),
          m_a_softmax = (\<lambda>idx es angle. (map real es, map (\<lambda>e. real e + 1) es))\<rparr>
     \<lparr>frame_hops = [160, 160], frame_lens = [320, 320], fft_n = [512, 512], lfcc_dim = [20, 20],
          v_truncate_lens = [750, 750], n_modules = 2\<rparr>
     [''f1'' \<mapsto> 1, ''f2'' \<mapsto> 0] 0 (\<lambda>_. 1 / 2) 0 True [[3], [5 :: nat]]
     [\<lparr>filename = ''f1'', raw_length = 160\<rparr>, \<lparr>filename = ''f2'', raw_length = 160\<rparr>]
   = Inr ([], TrainOut ([3, 5, 4, 6], [4, 6, 5, 7]) [1, 0, 1, 0] True, 0)"
proof -
  have e: "compute_embedding \<lparr>m_frontend = (\<lambda>idx ws. ws), m_model = (\<lambda>idx rows. map (\<lambda>r. hd r + idx) rows),
          m_a_softmax = (\<lambda>idx es angle. (map real es, map (\<lambda>e. real e + 1) es))\<rparr>
     \<lparr>frame_hops = [160, 160], frame_lens = [320, 320], fft_n = [512, 512], lfcc_dim = [20, 20],
          v_truncate_lens = [750, 750], n_modules = 2\<rparr>
     0 (\<lambda>_. 1 / 2) 0 [[3], [5 :: nat]] (map parse_length [\<lparr>filename = ''f1'', raw_length = 160\<rparr>, \<lparr>filename = ''f2'', raw_length = 160\<rparr>])
   = Inr ([3, 5, 4, 6], 0)"
    using embed_example by (simp add: parse_length_def)
  note t = training_targets [where E = "\<lparr>m_frontend = (\<lambda>idx ws. ws), m_model = (\<lambda>idx rows. map (\<lambda>r. hd r + idx) rows),
          m_a_softmax = (\<lambda>idx es angle. (map real es, map (\<lambda>e. real e + 1) es))\<rparr>"
      and mem = "\<lparr>frame_hops = [160, 160], frame_lens = [320, 320], fft_n = [512, 512], lfcc_dim = [20, 20],
          v_truncate_lens = [750, 750], n_modules = 2\<rparr>"
      and tbl = "[''f1'' \<mapsto> 1, ''f2'' \<mapsto> 0]" and zero = 0 and draws = "\<lambda>_. 1 / 2" and k = 0
      and x = "[[3], [5 :: nat]]" and fileinfo = "[\<lparr>filename = ''f1'', raw_length = 160\<rparr>, \<lparr>filename = ''f2'', raw_length = 160\<rparr>]"
      and fv = "[3, 5, 4, 6]" and k' = 0 and act = "([3, 5, 4, 6], [4, 6, 5, 7])"
      and target = "[1, 0]"]
  from conjunct2 [OF t] e score_example_train target_example
  show ?thesis by (simp add: v_submodels_def numeral_2_eq_2)
qed

text \<open>
  C2 (as the code has it): when the forward pass returns in inference mode it returns
  \<open>None\<close> and has printed exactly one line, whatever the batch size: the filename of
  the first utterance of the batch, that utterance's label, and the mean of all
  \<open>length x * N\<close> cosine values of the batch. For a batch of one utterance these are
  its \<open>N\<close> per-member cosine values (entry \<open>i\<close> is what the angular layer of member
  \<open>i\<close> returned for the embedding of member \<open>i\<close>), so the score is their arithmetic
  mean. The pass does return, with that line, when embedding, scoring and target
  lookup return for a batch that is not empty.
\<close>

theorem inference_line:
  "(forward E mem tbl zero draws k False x fileinfo = Inr (lines, ret, k') \<longrightarrow>
      ret = NoneOut
    \<and> (\<exists>fv cv pv target.
          compute_embedding E mem zero draws k x (map parse_length fileinfo) = Inr (fv, k')
        \<and> compute_score E mem fv True = Inr (cv, pv)
        \<and> get_target tbl (map parse_filename fileinfo) = Inr target
        \<and> fileinfo \<noteq> []
        \<and> lines = [(filename (hd fileinfo), hd target, mean cv)]
        \<and> tbl (filename (hd fileinfo)) = Some (hd target)
        \<and> length cv = length x * v_submodels mem
        \<and> (cv \<noteq> [] \<longrightarrow> mean cv = Some (sum_list cv / real (length cv)))
        \<and> (length x = 1 \<longrightarrow>
              length cv = v_submodels mem
            \<and> mean cv = Some (sum_list cv / real (v_submodels mem))
            \<and> (\<forall>i. i < v_submodels mem \<longrightarrow>
                  assign_bcast 1 (fst (m_a_softmax E i [fv ! i] True)) = Inr [cv ! i]))))
   \<and> (compute_embedding E mem zero draws k x (map parse_length fileinfo) = Inr (fv, k')
       \<and> compute_score E mem fv True = Inr (cv, pv)
       \<and> get_target tbl (map parse_filename fileinfo) = Inr target
       \<and> fileinfo \<noteq> []
      \<longrightarrow> forward E mem tbl zero draws k False x fileinfo
          = Inr ([(filename (hd fileinfo), hd target, mean cv)], NoneOut, k'))"
proof (intro conjI impI)
  assume f: "forward E mem tbl zero draws k False x fileinfo = Inr (lines, ret, k')"
  then obtain fv cv pv target f0 fs t0 ts where
    e: "compute_embedding E mem zero draws k x (map parse_length fileinfo) = Inr (fv, k')"
    and s: "compute_score E mem fv True = Inr (cv, pv)"
    and g: "get_target tbl (map parse_filename fileinfo) = Inr target"
    and fn: "map parse_filename fileinfo = f0 # fs" and tg: "target = t0 # ts"
    and l: "lines = [(f0, t0, mean cv)]" and r: "ret = NoneOut"
    unfolding forward_inference by (elim exE conjE) (rule that)
  show "ret = NoneOut" by (rule r)
  let ?N = "v_submodels mem"
  from fn have ne: "fileinfo \<noteq> []" by auto
  from fn ne have f0: "f0 = filename (hd fileinfo)"
    by (cases fileinfo) (auto simp: parse_filename_def)
  from tg have t0: "t0 = hd target" by simp
  have "tbl (map parse_filename fileinfo ! 0) = Some (target ! 0)"
    by (rule get_target_nth(2) [OF g]) (use ne in simp)
  then have lab: "tbl (filename (hd fileinfo)) = Some (hd target)"
    using fn f0 tg by simp
  note c = compute_score_layout [OF s]
  have lfv: "length fv = length x * ?N" by (rule compute_embedding_layout(1) [OF e])
  have lcv: "length cv = length x * ?N" using c(2) lfv by simp
  have m: "cv \<noteq> [] \<longrightarrow> mean cv = Some (sum_list cv / real (length cv))"
    by (simp add: mean_def)
  have one: "length cv = ?N \<and> mean cv = Some (sum_list cv / real ?N)
            \<and> (\<forall>i. i < ?N \<longrightarrow> assign_bcast 1 (fst (m_a_softmax E i [fv ! i] True)) = Inr [cv ! i])"
    if x1: "length x = 1"
  proof -
    have lN: "length cv = ?N" "length fv = ?N" using lcv lfv x1 by simp_all
    have bs: "length fv div ?N = 1" using lN c(1) by simp
    have "cv \<noteq> []" using lN c(1) by auto
    then have mv: "mean cv = Some (sum_list cv / real ?N)" using lN by (simp add: mean_def)
    have "assign_bcast 1 (fst (m_a_softmax E i [fv ! i] True)) = Inr [cv ! i]" if i: "i < ?N" for i
    proof -
      have a: "take 1 (drop i fv) = [fv ! i]" using i lN
        by (simp add: take_Suc_conv_app_nth)
      have b: "take 1 (drop i cv) = [cv ! i]" using i lN
        by (simp add: take_Suc_conv_app_nth)
      from c(4) [OF i] show ?thesis
        unfolding bs using a b by simp
    qed
    with lN mv show ?thesis by blast
  qed
  from e s g ne l f0 t0 lab lcv m one
  show "\<exists>fv cv pv target.
          compute_embedding E mem zero draws k x (map parse_length fileinfo) = Inr (fv, k')
        \<and> compute_score E mem fv True = Inr (cv, pv)
        \<and> get_target tbl (map parse_filename fileinfo) = Inr target
        \<and> fileinfo \<noteq> []
        \<and> lines = [(filename (hd fileinfo), hd target, mean cv)]
        \<and> tbl (filename (hd fileinfo)) = Some (hd target)
        \<and> length cv = length x * v_submodels mem
        \<and> (cv \<noteq> [] \<longrightarrow> mean cv = Some (sum_list cv / real (length cv)))
        \<and> (length x = 1 \<longrightarrow>
              length cv = v_submodels mem
            \<and> mean cv = Some (sum_list cv / real (v_submodels mem))
            \<and> (\<forall>i. i < v_submodels mem \<longrightarrow>
                  assign_bcast 1 (fst (m_a_softmax E i [fv ! i] True)) = Inr [cv ! i]))"
    by blast
next
  assume h: "compute_embedding E mem zero draws k x (map parse_length fileinfo) = Inr (fv, k')
       \<and> compute_score E mem fv True = Inr (cv, pv)
       \<and> get_target tbl (map parse_filename fileinfo) = Inr target
       \<and> fileinfo \<noteq> []"
  then obtain u us where fi: "fileinfo = u # us" by (cases fileinfo) auto
  from h have g: "get_target tbl (map parse_filename fileinfo) = Inr target" by blast
  from get_target_nth(1) [OF g] fi obtain t0 ts where tg: "target = t0 # ts"
    by (cases target) auto
  have "forward E mem tbl zero draws k False x fileinfo
        = Inr ([(parse_filename u, t0, mean cv)], NoneOut, k')"
    unfolding forward_inference using h fi tg by simp
  then show "forward E mem tbl zero draws k False x fileinfo
          = Inr ([(filename (hd fileinfo), hd target, mean cv)], NoneOut, k')"
    using fi tg by (simp add: parse_filename_def)
qed

lemma source_members_value:
  "source_members = Inr \<lparr>frame_hops = [160], frame_lens = [320], fft_n = [512], lfcc_dim = [20],
          v_truncate_lens = [750], n_modules = 1\<rparr>"
  by (simp add: source_members_def init_members_def bind_err_def)

lemma embed_single:
  "compute_embedding \<lparr>m_frontend = (\<lambda>idx ws. ws), m_model = (\<lambda>idx rows. map (\<lambda>r. hd r + idx) rows),
          m_a_softmax = (\<lambda>idx es angle. (map real es, map (\<lambda>e. real e + 1) es))\<rparr>
     \<lparr>frame_hops = [160, 160], frame_lens = [320, 320], fft_n = [512, 512], lfcc_dim = [20, 20],
          v_truncate_lens = [750, 750], n_modules = 2\<rparr>
     0 (\<lambda>_. 1 / 2) 0 [[3 :: nat]] (map parse_length [\<lparr>filename = ''f1'', raw_length = 160\<rparr>])
   = Inr ([3, 4], 0)"
  by (simp add: compute_embedding_def loop_items_def v_submodels_def front_end_def tile_single_frame
      assign_slice_def assign_bcast_def bind_err_def Let_def numeral_2_eq_2 parse_length_def)

lemma score_single:
  "compute_score \<lparr>m_frontend = (\<lambda>idx ws. ws), m_model = (\<lambda>idx rows. map (\<lambda>r. hd r + idx) rows),
          m_a_softmax = (\<lambda>idx es angle. (map real es, map (\<lambda>e. real e + 1) es))\<rparr>
     \<lparr>frame_hops = [160, 160], frame_lens = [320, 320], fft_n = [512, 512], lfcc_dim = [20, 20],
          v_truncate_lens = [750, 750], n_modules = 2\<rparr>
     [3, 4] True
   = Inr ([3, 4], [4, 5])"
  by code_simp

lemma target_single:
  "get_target [''f1'' \<mapsto> 1, ''f2'' \<mapsto> 0] (map parse_filename [\<lparr>filename = ''f1'', raw_length = 160\<rparr>]) = Inr [1]"
  by (simp add: get_target_def parse_filename_def)

theorem inference_line_witness:
  "forward \<lparr>m_frontend = (\<lambda>idx ws. ws), m_model = (\<lambda>idx rows. map (\<lambda>r. hd r + idx) rows),
          m_a_softmax = (\<lambda>idx es angle. (map real es, map (\<lambda>e. real e + 1) es))\<rparr>
     \<lparr>frame_hops = [160, 160], frame_lens = [320, 320], fft_n = [512, 512], lfcc_dim = [20, 20],
          v_truncate_lens = [750, 750], n_modules = 2\<rparr>
     [''f1'' \<mapsto> 1, ''f2'' \<mapsto> 0] 0 (\<lambda>_. 1 / 2) 0 False [[3 :: nat]]
     [\<lparr>filename = ''f1'', raw_length = 160\<rparr>]
   = Inr ([(''f1'', 1, Some (7 / 2))], NoneOut, 0)"
proof -
  note t = inference_line [where E = "\<lparr>m_frontend = (\<lambda>idx ws. ws), m_model = (\<lambda>idx rows. map (\<lambda>r. hd r + idx) rows),
          m_a_softmax = (\<lambda>idx es angle. (map real es, map (\<lambda>e. real e + 1) es))\<rparr>"
      and mem = "\<lparr>frame_hops = [160, 160], frame_lens = [320, 320], fft_n = [512, 512], lfcc_dim = [20, 20],
          v_truncate_lens = [750, 750], n_modules = 2\<rparr>"
      and tbl = "[''f1'' \<mapsto> 1, ''f2'' \<mapsto> 0]" and zero = 0 and draws = "\<lambda>_. 1 / 2" and k = 0
      and x = "[[3 :: nat]]" and fileinfo = "[\<lparr>filename = ''f1'', raw_length = 160\<rparr>]"
      and fv = "[3, 4]" and k' = 0 and cv = "[3, 4]" and pv = "[4, 5]"
      and target = "[1]"]
  from conjunct2 [OF t] embed_single score_single target_single
  show ?thesis by (simp add: mean_def)
qed

lemma forward_batch:
  "forward \<lparr>m_frontend = (\<lambda>idx ws. ws), m_model = (\<lambda>idx rows. map (\<lambda>r. hd r + idx) rows),
          m_a_softmax = (\<lambda>idx es angle. (map real es, map (\<lambda>e. real e + 1) es))\<rparr>
     \<lparr>frame_hops = [160], frame_lens = [320], fft_n = [512], lfcc_dim = [20],
          v_truncate_lens = [750], n_modules = 1\<rparr>
     [''f1'' \<mapsto> 1, ''f2'' \<mapsto> 0] 0 (\<lambda>_. 1 / 2) 0 False [[3], [5 :: nat]]
     [\<lparr>filename = ''f1'', raw_length = 160\<rparr>, \<lparr>filename = ''f2'', raw_length = 160\<rparr>]
   = Inr ([(''f1'', 1, Some 4)], NoneOut, 0)"
  by (simp add: forward_def compute_embedding_def compute_score_def loop_items_def v_submodels_def
      front_end_def tile_single_frame assign_slice_def assign_bcast_def bind_err_def Let_def
      py_slice_def py_bound_def get_target_def parse_filename_def parse_length_def mean_def)


lemma forward_alone:
  "forward \<lparr>m_frontend = (\<lambda>idx ws. ws), m_model = (\<lambda>idx rows. map (\<lambda>r. hd r + idx) rows),
          m_a_softmax = (\<lambda>idx es angle. (map real es, map (\<lambda>e. real e + 1) es))\<rparr>
     \<lparr>frame_hops = [160], frame_lens = [320], fft_n = [512], lfcc_dim = [20],
          v_truncate_lens = [750], n_modules = 1\<rparr>
     [''f1'' \<mapsto> 1, ''f2'' \<mapsto> 0] 0 (\<lambda>_. 1 / 2) 0 False [[3 :: nat]]
     [\<lparr>filename = ''f1'', raw_length = 160\<rparr>]
   = Inr ([(''f1'', 1, Some 3)], NoneOut, 0)"
  by (simp add: forward_def compute_embedding_def compute_score_def loop_items_def v_submodels_def
      front_end_def tile_single_frame assign_slice_def assign_bcast_def bind_err_def Let_def
      py_slice_def py_bound_def get_target_def parse_filename_def parse_length_def mean_def)

text \<open>
  C2 as stated fails for a batch of two utterances, on the members of the source
  (one member, hop 160, 750 frames): the pass prints one line, not two; the line is
  for \<^verbatim>\<open>f1\<close> and its score 4 is the mean over both utterances' cosine values 3 and 5,
  while \<^verbatim>\<open>f1\<close> alone scores 3; nothing is printed for \<^verbatim>\<open>f2\<close>.
\<close>

theorem batch_inference_counterexample:
  "source_members = Inr \<lparr>frame_hops = [160], frame_lens = [320], fft_n = [512], lfcc_dim = [20],
          v_truncate_lens = [750], n_modules = 1\<rparr>
   \<and> forward \<lparr>m_frontend = (\<lambda>idx ws. ws), m_model = (\<lambda>idx rows. map (\<lambda>r. hd r + idx) rows),
          m_a_softmax = (\<lambda>idx es angle. (map real es, map (\<lambda>e. real e + 1) es))\<rparr>
     \<lparr>frame_hops = [160], frame_lens = [320], fft_n = [512], lfcc_dim = [20],
          v_truncate_lens = [750], n_modules = 1\<rparr>
     [''f1'' \<mapsto> 1, ''f2'' \<mapsto> 0] 0 (\<lambda>_. 1 / 2) 0 False [[3], [5 :: nat]]
     [\<lparr>filename = ''f1'', raw_length = 160\<rparr>, \<lparr>filename = ''f2'', raw_length = 160\<rparr>]
   = Inr ([(''f1'', 1, Some 4)], NoneOut, 0)
   \<and> length [(''f1'', 1 :: int, Some (4 :: real))] \<noteq> length [\<lparr>filename = ''f1'', raw_length = 160\<rparr>, \<lparr>filename = ''f2'', raw_length = 160\<rparr>]
   \<and> forward \<lparr>m_frontend = (\<lambda>idx ws. ws), m_model = (\<lambda>idx rows. map (\<lambda>r. hd r + idx) rows),
          m_a_softmax = (\<lambda>idx es angle. (map real es, map (\<lambda>e. real e + 1) es))\<rparr>
     \<lparr>frame_hops = [160], frame_lens = [320], fft_n = [512], lfcc_dim = [20],
          v_truncate_lens = [750], n_modules = 1\<rparr>
     [''f1'' \<mapsto> 1, ''f2'' \<mapsto> 0] 0 (\<lambda>_. 1 / 2) 0 False [[3 :: nat]]
     [\<lparr>filename = ''f1'', raw_length = 160\<rparr>]
   = Inr ([(''f1'', 1, Some 3)], NoneOut, 0)
   \<and> Some (4 :: real) \<noteq> Some 3"
  using source_members_value forward_batch forward_alone by simp

end
